theory Spec2Isabelle
  imports Complex_Main "HOL-Library.Sublist"
begin

section \<open>JavaScript strings\<close>

text \<open>
  A JavaScript string is a sequence of UTF-16 code units, and \<open>s.length\<close> counts them.
  A prompt is a list of code units (natural numbers below 65536), so \<open>s.length\<close> is
  \<^term>\<open>length s\<close>. The keywords, model names and messages of the program are ASCII
  and are written as string literals; \<open>utf16\<close> gives the code units of a literal.

  \<open>toLowerCase\<close> maps the letters \<open>A\<close> to \<open>Z\<close> to \<open>a\<close> to \<open>z\<close>, and the
  code unit U+0130 (capital I with dot above) to the two code units U+0069 U+0307, as
  \<open>String.prototype.toLowerCase\<close> does; it is the only code unit whose lower case is
  longer. The other letters outside ASCII are left as they are; no statement below
  depends on how they are mapped.
\<close>

definition utf16 :: "string \<Rightarrow> nat list" where
  "utf16 s = map of_char s"

definition toLowerUnit :: "nat \<Rightarrow> nat list" where
  "toLowerUnit u =
     (if 65 \<le> u \<and> u \<le> 90 then [u + 32]
      else if u = 304 then [105, 775]
      else [u])"

definition toLowerCase :: "nat list \<Rightarrow> nat list" where
  "toLowerCase s = concat (map toLowerUnit s)"

definition startsWith :: "'a list \<Rightarrow> 'a list \<Rightarrow> bool" where
  "startsWith s p = prefix p s"

fun includesStr :: "'a list \<Rightarrow> 'a list \<Rightarrow> bool" where
  "includesStr [] sub = (sub = [])"
| "includesStr (c # cs) sub = (prefix sub (c # cs) \<or> includesStr cs sub)"

fun join :: "string list \<Rightarrow> string \<Rightarrow> string" where
  "join [] sep = []"
| "join [x] sep = x"
| "join (x # y # ys) sep = x @ sep @ join (y # ys) sep"

section \<open>Model catalog (config/modelCatalog.ts)\<close>

datatype Speed = SpeedFast | SpeedMedium | SpeedSlow
datatype Quality = QualityBasic | QualityGood | QualityExcellent
datatype MemoryUsage = MemoryLow | MemoryMedium | MemoryHigh

record Performance =
  speed :: Speed
  quality :: Quality
  memoryUsage :: MemoryUsage

datatype ModelStrength =
    coding | general | lightweight | math | reasoning
  | conversation | analysis | creative | multilingual

datatype TaskType =
    code_generation | code_review | debugging | documentation | general_chat
  | file_analysis | project_planning | quick_questions | complex_reasoning
  | creative_writing

record ModelCapabilities =
  name :: string
  displayName :: string
  sizeGB :: rat
  performance :: Performance
  strengths :: "ModelStrength list"
  description :: string
  useCases :: "string list"

text \<open>\<open>Partial<ModelCapabilities>\<close>, with the two fields the preference tables set.\<close>

record TaskPreferences =
  pref_strengths :: "ModelStrength list option"
  pref_performance :: "Performance option"

definition MODEL_CATALOG :: "ModelCapabilities list" where
  "MODEL_CATALOG =
   [ \<lparr> name = ''qwen3-coder:latest'', displayName = ''Qwen3 Coder'', sizeGB = 18,
       performance = \<lparr> speed = SpeedMedium, quality = QualityExcellent, memoryUsage = MemoryHigh \<rparr>,
       strengths = [coding, analysis, reasoning],
       description = ''Specialized coding model with excellent programming capabilities'',
       useCases = [''Code generation and refactoring'', ''Complex debugging'',
                   ''Code architecture planning'', ''Technical documentation''] \<rparr>,
     \<lparr> name = ''gpt-oss:latest'', displayName = ''GPT-OSS 20B'', sizeGB = 13,
       performance = \<lparr> speed = SpeedSlow, quality = QualityExcellent, memoryUsage = MemoryHigh \<rparr>,
       strengths = [general, reasoning, creative, coding],
       description = ''Large general-purpose model with strong reasoning and creative capabilities'',
       useCases = [''Complex problem solving'', ''Creative writing and ideation'',
                   ''Advanced code generation'', ''Research and analysis''] \<rparr>,
     \<lparr> name = ''llama3.1:latest'', displayName = ''Llama 3.1'', sizeGB = 49 / 10,
       performance = \<lparr> speed = SpeedMedium, quality = QualityGood, memoryUsage = MemoryMedium \<rparr>,
       strengths = [general, conversation, coding, reasoning],
       description = ''Balanced general-purpose model, good for most tasks'',
       useCases = [''General conversations'', ''Basic to intermediate coding'',
                   ''File analysis'', ''Documentation help''] \<rparr>,
     \<lparr> name = ''gemma3:4b'', displayName = ''Gemma 3 4B'', sizeGB = 33 / 10,
       performance = \<lparr> speed = SpeedMedium, quality = QualityGood, memoryUsage = MemoryMedium \<rparr>,
       strengths = [math, reasoning, general],
       description = ''Efficient model with strong mathematical and logical reasoning'',
       useCases = [''Mathematical calculations'', ''Logical problem solving'',
                   ''Data analysis'', ''Quick reasoning tasks''] \<rparr>,
     \<lparr> name = ''phi3:mini'', displayName = ''Phi-3 Mini'', sizeGB = 22 / 10,
       performance = \<lparr> speed = SpeedFast, quality = QualityGood, memoryUsage = MemoryLow \<rparr>,
       strengths = [lightweight, conversation, reasoning],
       description = ''Compact but capable model, excellent for quick responses'',
       useCases = [''Quick questions and answers'', ''Basic code assistance'',
                   ''Fast iterations'', ''Low-resource environments''] \<rparr>,
     \<lparr> name = ''tinyllama:latest'', displayName = ''TinyLlama'', sizeGB = 6 / 10,
       performance = \<lparr> speed = SpeedFast, quality = QualityBasic, memoryUsage = MemoryLow \<rparr>,
       strengths = [lightweight, conversation],
       description = ''Ultra-lightweight model for basic tasks and quick responses'',
       useCases = [''Simple questions'', ''Basic text processing'',
                   ''Ultra-fast responses'', ''Resource-constrained scenarios''] \<rparr> ]"

definition mkPreferences :: "ModelStrength list \<Rightarrow> Speed \<Rightarrow> Quality \<Rightarrow> MemoryUsage \<Rightarrow> TaskPreferences" where
  "mkPreferences ss sp q mu =
     \<lparr> pref_strengths = Some ss,
       pref_performance = Some \<lparr> speed = sp, quality = q, memoryUsage = mu \<rparr> \<rparr>"

fun TASK_TO_MODEL_PREFERENCES :: "TaskType \<Rightarrow> TaskPreferences" where
  "TASK_TO_MODEL_PREFERENCES code_generation =
     mkPreferences [coding] SpeedMedium QualityExcellent MemoryMedium"
| "TASK_TO_MODEL_PREFERENCES code_review =
     mkPreferences [coding, analysis] SpeedMedium QualityGood MemoryMedium"
| "TASK_TO_MODEL_PREFERENCES debugging =
     mkPreferences [coding, reasoning] SpeedMedium QualityExcellent MemoryMedium"
| "TASK_TO_MODEL_PREFERENCES documentation =
     mkPreferences [general, coding] SpeedMedium QualityGood MemoryMedium"
| "TASK_TO_MODEL_PREFERENCES general_chat =
     mkPreferences [general, conversation] SpeedFast QualityGood MemoryLow"
| "TASK_TO_MODEL_PREFERENCES file_analysis =
     mkPreferences [analysis, coding] SpeedMedium QualityGood MemoryMedium"
| "TASK_TO_MODEL_PREFERENCES project_planning =
     mkPreferences [reasoning, general] SpeedMedium QualityExcellent MemoryMedium"
| "TASK_TO_MODEL_PREFERENCES quick_questions =
     mkPreferences [lightweight] SpeedFast QualityBasic MemoryLow"
| "TASK_TO_MODEL_PREFERENCES complex_reasoning =
     mkPreferences [reasoning, math] SpeedSlow QualityExcellent MemoryHigh"
| "TASK_TO_MODEL_PREFERENCES creative_writing =
     mkPreferences [creative, general] SpeedMedium QualityExcellent MemoryMedium"

record ProjectContext =
  hasCodeFiles :: bool
  primaryLanguage :: "string option"
  projectType :: "string option"
  fileTypes :: "string list option"

text \<open>\<open>projectContext?.hasCodeFiles\<close>: an absent context is falsy.\<close>

definition ctxHasCodeFiles :: "ProjectContext option \<Rightarrow> bool" where
  "ctxHasCodeFiles pc = (case pc of None \<Rightarrow> False | Some c \<Rightarrow> hasCodeFiles c)"

text \<open>
  \<open>analyzeTaskType\<close>: the chain of \<open>if\<close> statements of the source, in its order. In
  the creative test \<open>&&\<close> binds tighter than \<open>||\<close>, so the exclusion of \<open>code\<close>
  is attached to \<open>generate\<close> only.
\<close>

definition analyzeTaskType :: "nat list \<Rightarrow> ProjectContext option \<Rightarrow> TaskType" where
  "analyzeTaskType p projectCtx =
    (let lowerPrompt = toLowerCase p in
     if includesStr lowerPrompt (utf16 ''debug'') \<or> includesStr lowerPrompt (utf16 ''error'') \<or> includesStr lowerPrompt (utf16 ''fix'')
       then debugging
     else if includesStr lowerPrompt (utf16 ''code'') \<or> includesStr lowerPrompt (utf16 ''function'') \<or>
             includesStr lowerPrompt (utf16 ''implement'') \<or> includesStr lowerPrompt (utf16 ''write'')
       then code_generation
     else if includesStr lowerPrompt (utf16 ''review'') \<or> includesStr lowerPrompt (utf16 ''improve'') \<or>
             includesStr lowerPrompt (utf16 ''refactor'')
       then code_review
     else if includesStr lowerPrompt (utf16 ''document'') \<or> includesStr lowerPrompt (utf16 ''readme'') \<or>
             includesStr lowerPrompt (utf16 ''comment'')
       then documentation
     else if includesStr lowerPrompt (utf16 ''analyze'') \<or> includesStr lowerPrompt (utf16 ''examine'') \<or>
             includesStr lowerPrompt (utf16 ''explain'')
       then (if ctxHasCodeFiles projectCtx then file_analysis else general_chat)
     else if length lowerPrompt < 50 \<and>
             (includesStr lowerPrompt (utf16 ''?'') \<or> startsWith lowerPrompt (utf16 ''what'') \<or>
              startsWith lowerPrompt (utf16 ''how'') \<or> startsWith lowerPrompt (utf16 ''why''))
       then quick_questions
     else if includesStr lowerPrompt (utf16 ''write'') \<or> includesStr lowerPrompt (utf16 ''create'') \<or>
             (includesStr lowerPrompt (utf16 ''generate'') \<and> \<not> includesStr lowerPrompt (utf16 ''code''))
       then creative_writing
     else if includesStr lowerPrompt (utf16 ''plan'') \<or> includesStr lowerPrompt (utf16 ''architecture'') \<or>
             includesStr lowerPrompt (utf16 ''design'')
       then project_planning
     else if includesStr lowerPrompt (utf16 ''calculate'') \<or> includesStr lowerPrompt (utf16 ''solve'') \<or>
             includesStr lowerPrompt (utf16 ''math'')
       then complex_reasoning
     else general_chat)"


text \<open>
  The classifier as the specification words it: an ordered table of rules, each a test
  on the prompt and the task type it answers (which may depend on whether the project
  has code files); the first rule whose test holds decides, and \<open>general_chat\<close> is the
  default. Keywords are matched in the lower-cased prompt. The table takes the measure
  of the prompt's length that the short-question rule compares with 50.
\<close>

definition mentions :: "nat list \<Rightarrow> string list \<Rightarrow> bool" where
  "mentions p ks = list_ex (\<lambda>k. includesStr (toLowerCase p) (utf16 k)) ks"

definition startsWithAny :: "nat list \<Rightarrow> string list \<Rightarrow> bool" where
  "startsWithAny p ks = list_ex (\<lambda>k. startsWith (toLowerCase p) (utf16 k)) ks"

definition classificationRules :: "(nat list \<Rightarrow> nat) \<Rightarrow> ((nat list \<Rightarrow> bool) \<times> (bool \<Rightarrow> TaskType)) list" where
  "classificationRules promptLength =
   [ (\<lambda>p. mentions p [''debug'', ''error'', ''fix''], \<lambda>cf. debugging),
     (\<lambda>p. mentions p [''code'', ''function'', ''implement'', ''write''], \<lambda>cf. code_generation),
     (\<lambda>p. mentions p [''review'', ''improve'', ''refactor''], \<lambda>cf. code_review),
     (\<lambda>p. mentions p [''document'', ''readme'', ''comment''], \<lambda>cf. documentation),
     (\<lambda>p. mentions p [''analyze'', ''examine'', ''explain''],
        \<lambda>cf. if cf then file_analysis else general_chat),
     (\<lambda>p. promptLength p < 50 \<and>
           (mentions p [''?''] \<or> startsWithAny p [''what'', ''how'', ''why'']),
        \<lambda>cf. quick_questions),
     (\<lambda>p. mentions p [''write'', ''create'', ''generate''] \<and> \<not> mentions p [''code''],
        \<lambda>cf. creative_writing),
     (\<lambda>p. mentions p [''plan'', ''architecture'', ''design''], \<lambda>cf. project_planning),
     (\<lambda>p. mentions p [''calculate'', ''solve'', ''math''], \<lambda>cf. complex_reasoning) ]"

fun firstMatch :: "((nat list \<Rightarrow> bool) \<times> (bool \<Rightarrow> TaskType)) list \<Rightarrow> nat list \<Rightarrow> bool \<Rightarrow> TaskType" where
  "firstMatch [] p cf = general_chat"
| "firstMatch ((test, answer) # rules) p cf =
     (if test p then answer cf else firstMatch rules p cf)"

text \<open>
  The claim as it is stated compares the length of the prompt with 50; the amended
  claim compares the length of the lower-cased prompt.
\<close>

definition classifyAsStated :: "nat list \<Rightarrow> ProjectContext option \<Rightarrow> TaskType" where
  "classifyAsStated p projectCtx =
     firstMatch (classificationRules length) p (ctxHasCodeFiles projectCtx)"

definition classifyByPriority :: "nat list \<Rightarrow> ProjectContext option \<Rightarrow> TaskType" where
  "classifyByPriority p projectCtx =
     firstMatch (classificationRules (\<lambda>q. length (toLowerCase q))) p (ctxHasCodeFiles projectCtx)"

text \<open>\<open>scoreModelForTask\<close> of the catalog: the three \<open>if\<close> statements on the preference entry.\<close>

definition matchingStrengths :: "ModelCapabilities \<Rightarrow> ModelStrength list \<Rightarrow> nat" where
  "matchingStrengths m ps = length (filter (\<lambda>s. s \<in> set ps) (strengths m))"

definition scoreWith :: "TaskPreferences \<Rightarrow> ModelCapabilities \<Rightarrow> int" where
  "scoreWith preferences m =
    (let score0 = 0;
         score1 = (case pref_strengths preferences of
                     None \<Rightarrow> score0
                   | Some ps \<Rightarrow> score0 + int (matchingStrengths m ps) * 3);
         score2 = (case pref_performance preferences of
                     None \<Rightarrow> score1
                   | Some pp \<Rightarrow> score1 + (if quality pp = quality (performance m) then 2 else 0));
         score3 = (case pref_performance preferences of
                     None \<Rightarrow> score2
                   | Some pp \<Rightarrow> score2 + (if speed pp = speed (performance m) then 1 else 0))
     in score3)"

definition scoreModelForTask :: "ModelCapabilities \<Rightarrow> TaskType \<Rightarrow> int" where
  "scoreModelForTask m t = scoreWith (TASK_TO_MODEL_PREFERENCES t) m"

text \<open>
  \<open>Array.prototype.sort\<close> with the comparator \<open>b.score - a.score\<close> is a stable sort
  in descending order of the score: \<^const>\<open>sort_key\<close> (a stable insertion sort) on the
  negated score.
\<close>

definition sortByScoreDesc :: "(ModelCapabilities \<times> int) list \<Rightarrow> (ModelCapabilities \<times> int) list" where
  "sortByScoreDesc scored = sort_key (\<lambda>item. - snd item) scored"

definition recommendModel :: "TaskType \<Rightarrow> string list \<Rightarrow> ModelCapabilities option" where
  "recommendModel t available =
    (let candidates = filter (\<lambda>m. name m \<in> set available) MODEL_CATALOG in
     if length candidates = 0 then None
     else (case sortByScoreDesc (map (\<lambda>m. (m, scoreModelForTask m t)) candidates) of
             [] \<Rightarrow> None
           | item # rest \<Rightarrow> Some (fst item)))"


section \<open>Model selection service (services/modelSelectionService.ts)\<close>

text \<open>
  The errors thrown: a plain \<open>Error\<close> with its message, and the two error classes of
  the adapter with the arguments of their constructors.
\<close>

datatype error =
    Error string
  | LocalLLMNotAvailableError string string int
  | ModelNotAvailableError string "string list"

datatype Mode = ModeAuto | ModeManual

record UserPreferences =
  mode :: Mode
  preferredModel :: "string option"
  allowFallback :: "bool option"
  showRecommendations :: "bool option"

record ModelSelectionContext =
  prompt :: "nat list"
  projectContext :: "ProjectContext option"
  userPreferences :: "UserPreferences option"
  availableModels :: "string list option"

text \<open>The service's own copy of the preference table (\<open>getTaskPreferences\<close>).\<close>

fun getTaskPreferences :: "TaskType \<Rightarrow> TaskPreferences" where
  "getTaskPreferences code_generation =
     mkPreferences [coding] SpeedMedium QualityExcellent MemoryMedium"
| "getTaskPreferences code_review =
     mkPreferences [coding, analysis] SpeedMedium QualityGood MemoryMedium"
| "getTaskPreferences debugging =
     mkPreferences [coding, reasoning] SpeedMedium QualityExcellent MemoryMedium"
| "getTaskPreferences documentation =
     mkPreferences [general, coding] SpeedMedium QualityGood MemoryMedium"
| "getTaskPreferences general_chat =
     mkPreferences [general, conversation] SpeedFast QualityGood MemoryLow"
| "getTaskPreferences file_analysis =
     mkPreferences [analysis, coding] SpeedMedium QualityGood MemoryMedium"
| "getTaskPreferences project_planning =
     mkPreferences [reasoning, general] SpeedMedium QualityExcellent MemoryMedium"
| "getTaskPreferences quick_questions =
     mkPreferences [lightweight] SpeedFast QualityBasic MemoryLow"
| "getTaskPreferences complex_reasoning =
     mkPreferences [reasoning, math] SpeedSlow QualityExcellent MemoryHigh"
| "getTaskPreferences creative_writing =
     mkPreferences [creative, general] SpeedMedium QualityExcellent MemoryMedium"

definition serviceScoreModelForTask :: "ModelCapabilities \<Rightarrow> TaskType \<Rightarrow> int" where
  "serviceScoreModelForTask m t = scoreWith (getTaskPreferences t) m"

definition getAlternatives :: "ModelCapabilities \<Rightarrow> TaskType \<Rightarrow> string list \<Rightarrow> ModelCapabilities list" where
  "getAlternatives selectedModel t available =
     map fst
       (take 2
         (sortByScoreDesc
           (map (\<lambda>m. (m, serviceScoreModelForTask m t))
             (filter (\<lambda>m. name m \<noteq> name selectedModel \<and> name m \<in> set available)
                MODEL_CATALOG))))"

definition generateReasoning :: "ModelCapabilities \<Rightarrow> TaskType \<Rightarrow> ModelSelectionContext \<Rightarrow> string" where
  "generateReasoning m t ctx =
    (let excelsAtCoding =
           (if coding \<in> set (strengths m) then [displayName m @ '' excels at coding tasks''] else []);
         excellentQuality =
           (if quality (performance m) = QualityExcellent
            then [displayName m @ '' offers excellent quality for complex reasoning''] else []);
         reasons1 =
           (case t of
              code_generation \<Rightarrow> excelsAtCoding
            | debugging \<Rightarrow> excelsAtCoding
            | quick_questions \<Rightarrow>
                (if speed (performance m) = SpeedFast
                 then [displayName m @ '' provides fast responses for quick queries''] else [])
            | complex_reasoning \<Rightarrow> excellentQuality
            | project_planning \<Rightarrow> excellentQuality
            | creative_writing \<Rightarrow>
                (if creative \<in> set (strengths m)
                 then [displayName m @ '' is designed for creative tasks''] else [])
            | _ \<Rightarrow> []);
         reasons2 =
           (if speed (performance m) = SpeedFast \<and> length (prompt ctx) < 100
            then reasons1 @ [''optimized for quick responses''] else reasons1);
         reasons3 =
           (if memoryUsage (performance m) = MemoryLow
            then reasons2 @ [''efficient memory usage''] else reasons2);
         reasons4 =
           (if ctxHasCodeFiles (projectContext ctx) \<and> coding \<in> set (strengths m)
            then reasons3 @ [''well-suited for code projects''] else reasons3)
     in if length reasons4 > 0 then join reasons4 '', ''
        else displayName m @ '' is a good general-purpose choice'')"

text \<open>
  \<open>calculateConfidence\<close>: the running sum \<open>confidence\<close> of the source, one binding per
  statement that updates it. Numbers are exact rationals.
\<close>

definition calculateConfidence :: "ModelCapabilities \<Rightarrow> TaskType \<Rightarrow> ModelSelectionContext \<Rightarrow> rat" where
  "calculateConfidence m t ctx =
    (let confidence0 = 0.5;
         taskPreferences = getTaskPreferences t;
         confidence1 =
           (case pref_strengths taskPreferences of
              None \<Rightarrow> confidence0
            | Some ps \<Rightarrow> confidence0 + of_nat (matchingStrengths m ps) * 0.15);
         confidence2 =
           (case pref_performance taskPreferences of
              None \<Rightarrow> confidence1
            | Some pp \<Rightarrow>
                (let c = (if quality pp = quality (performance m)
                          then confidence1 + 0.1 else confidence1)
                 in if speed pp = speed (performance m) then c + 0.05 else c));
         confidence3 =
           (if ctxHasCodeFiles (projectContext ctx) \<and> coding \<in> set (strengths m)
            then confidence2 + 0.1 else confidence2);
         confidence4 =
           (if length (prompt ctx) > 500 \<and> quality (performance m) = QualityExcellent
            then confidence3 + 0.1
            else if length (prompt ctx) < 100 \<and> speed (performance m) = SpeedFast
            then confidence3 + 0.1
            else confidence3)
     in min confidence4 1.0)"

fun taskTypeName :: "TaskType \<Rightarrow> string" where
  "taskTypeName code_generation = ''code_generation''"
| "taskTypeName code_review = ''code_review''"
| "taskTypeName debugging = ''debugging''"
| "taskTypeName documentation = ''documentation''"
| "taskTypeName general_chat = ''general_chat''"
| "taskTypeName file_analysis = ''file_analysis''"
| "taskTypeName project_planning = ''project_planning''"
| "taskTypeName quick_questions = ''quick_questions''"
| "taskTypeName complex_reasoning = ''complex_reasoning''"
| "taskTypeName creative_writing = ''creative_writing''"

record ModelRecommendation =
  model :: ModelCapabilities
  taskType :: TaskType
  confidence :: rat
  reasoning :: string
  alternatives :: "ModelCapabilities list"

text \<open>The three objects \<open>recommend\<close> returns, one per \<open>return\<close> statement.\<close>

definition manualRecommendation :: "ModelCapabilities \<Rightarrow> TaskType \<Rightarrow> string list \<Rightarrow> ModelRecommendation" where
  "manualRecommendation preferred t available =
     \<lparr> model = preferred, taskType = t, confidence = 1.0,
       reasoning = ''Using your preferred model: '' @ displayName preferred,
       alternatives = getAlternatives preferred t available \<rparr>"

definition fallbackRecommendation :: "ModelCapabilities \<Rightarrow> TaskType \<Rightarrow> ModelRecommendation" where
  "fallbackRecommendation fallbackModel t =
     \<lparr> model = fallbackModel, taskType = t, confidence = 0.3,
       reasoning = ''No optimal model found for '' @ taskTypeName t @
                   ''. Using fallback: '' @ displayName fallbackModel,
       alternatives = [] \<rparr>"

definition automaticRecommendation :: "ModelCapabilities \<Rightarrow> TaskType \<Rightarrow> ModelSelectionContext \<Rightarrow> string list \<Rightarrow> ModelRecommendation" where
  "automaticRecommendation recommended t ctx available =
     \<lparr> model = recommended, taskType = t,
       confidence = calculateConfidence recommended t ctx,
       reasoning = generateReasoning recommended t ctx,
       alternatives = getAlternatives recommended t available \<rparr>"

text \<open>
  The manual branch is entered when the mode is \<open>manual\<close>, the preferred model is a
  non-empty string of the available list, and the catalog has a model of that name.
\<close>

definition manualOverride :: "ModelSelectionContext \<Rightarrow> string list \<Rightarrow> ModelCapabilities option" where
  "manualOverride ctx available =
    (case userPreferences ctx of
       None \<Rightarrow> None
     | Some prefs \<Rightarrow>
        (case preferredModel prefs of
           None \<Rightarrow> None
         | Some wanted \<Rightarrow>
             if mode prefs = ModeManual \<and> wanted \<noteq> [] \<and> wanted \<in> set available
             then find (\<lambda>m. name m = wanted) MODEL_CATALOG
             else None))"

definition availableOrCatalog :: "ModelSelectionContext \<Rightarrow> string list" where
  "availableOrCatalog ctx =
     (case availableModels ctx of None \<Rightarrow> map name MODEL_CATALOG | Some av \<Rightarrow> av)"

definition recommend :: "ModelSelectionContext \<Rightarrow> error + ModelRecommendation" where
  "recommend ctx =
    (let t = analyzeTaskType (prompt ctx) (projectContext ctx);
         available = availableOrCatalog ctx
     in case manualOverride ctx available of
          Some preferred \<Rightarrow> Inr (manualRecommendation preferred t available)
        | None \<Rightarrow>
           (case recommendModel t available of
              None \<Rightarrow>
                (case find (\<lambda>m. name m \<in> set available) MODEL_CATALOG of
                   None \<Rightarrow> Inl (Error ''No available models found'')
                 | Some fallbackModel \<Rightarrow> Inr (fallbackRecommendation fallbackModel t))
            | Some recommended \<Rightarrow>
                Inr (automaticRecommendation recommended t ctx available)))"

text \<open>
  The confidence model as the specification words it: the base, one increment per
  matching strength tag, the quality and speed matches, the code-project bonus and
  one of the two length bonuses, clamped at 1.
\<close>

definition preferredStrengths :: "TaskType \<Rightarrow> ModelStrength list" where
  "preferredStrengths t =
     (case pref_strengths (getTaskPreferences t) of None \<Rightarrow> [] | Some ps \<Rightarrow> ps)"

definition preferredQuality :: "TaskType \<Rightarrow> Quality option" where
  "preferredQuality t = map_option quality (pref_performance (getTaskPreferences t))"

definition preferredSpeed :: "TaskType \<Rightarrow> Speed option" where
  "preferredSpeed t = map_option speed (pref_performance (getTaskPreferences t))"

definition confidenceFormula :: "ModelCapabilities \<Rightarrow> TaskType \<Rightarrow> ModelSelectionContext \<Rightarrow> rat" where
  "confidenceFormula m t ctx =
     min
       (0.5
        + of_nat (length (filter (\<lambda>s. s \<in> set (preferredStrengths t)) (strengths m))) * 0.15
        + (if preferredQuality t = Some (quality (performance m)) then 0.1 else 0)
        + (if preferredSpeed t = Some (speed (performance m)) then 0.05 else 0)
        + (if ctxHasCodeFiles (projectContext ctx) \<and> coding \<in> set (strengths m) then 0.1 else 0)
        + (if length (prompt ctx) > 500 \<and> quality (performance m) = QualityExcellent then 0.1
           else if length (prompt ctx) < 100 \<and> speed (performance m) = SpeedFast then 0.1
           else 0))
       1.0"

section \<open>Provider adapter (llm/LocalLLMAdapter.ts)\<close>

datatype ProviderKind = ollama | llamafile | lmstudio | custom

text \<open>
  \<open>LocalLLMConfig\<close>. The field \<open>model\<close> of the source is \<open>modelId\<close> here (the
  recommendation record has a field \<open>model\<close> already).
\<close>

record LocalLLMConfig =
  provider :: ProviderKind
  host :: string
  port :: int
  modelId :: string
  timeoutMs :: "int option"
  maxRetries :: "int option"
  temperature :: "rat option"
  maxTokens :: "int option"
  contextSize :: "int option"

text \<open>
  The reply of the backend after \<open>JSON.parse\<close>: the fields that the adapter reads.
  An absent \<open>done\<close> is \<open>False\<close>.
\<close>

record LocalMessage =
  messageRole :: string
  messageContent :: string

record LocalReply =
  replyMessage :: "LocalMessage option"
  replyContent :: "string option"
  replyDone :: bool
  prompt_eval_count :: "int option"
  eval_count :: "int option"

datatype FinishReason = STOP

datatype Part = TextPart string

record Content =
  role :: string
  parts :: "Part list"

record Candidate =
  content :: Content
  finishReason :: "FinishReason option"

record UsageMetadata =
  promptTokenCount :: int
  candidatesTokenCount :: "int option"
  totalTokenCount :: int

record GenerateContentResponse =
  candidates :: "Candidate list"
  usageMetadata :: "UsageMetadata option"

text \<open>\<open>x || 0\<close> on an optional number.\<close>

definition orZero :: "int option \<Rightarrow> int" where
  "orZero x = (case x of None \<Rightarrow> 0 | Some n \<Rightarrow> if n \<noteq> 0 then n else 0)"

definition replyText :: "LocalReply \<Rightarrow> string" where
  "replyText response =
     (let fromContent = (case replyContent response of
                            None \<Rightarrow> []
                          | Some c \<Rightarrow> if c \<noteq> [] then c else [])
      in case replyMessage response of
           None \<Rightarrow> fromContent
         | Some msg \<Rightarrow> if messageContent msg \<noteq> [] then messageContent msg else fromContent)"

definition convertFromLocalFormat :: "LocalReply \<Rightarrow> GenerateContentResponse" where
  "convertFromLocalFormat response =
     \<lparr> candidates =
         [ \<lparr> content = \<lparr> role = ''model'', parts = [TextPart (replyText response)] \<rparr>,
             finishReason = (if replyDone response then Some STOP else None) \<rparr> ],
       usageMetadata =
         (case prompt_eval_count response of
            None \<Rightarrow> None
          | Some promptCount \<Rightarrow>
              if promptCount \<noteq> 0
              then Some \<lparr> promptTokenCount = promptCount,
                          candidatesTokenCount = eval_count response,
                          totalTokenCount =
                            orZero (prompt_eval_count response) + orZero (eval_count response) \<rparr>
              else None) \<rparr>"

text \<open>
  The network. A \<open>fetch\<close> either rejects (a transport failure, or the abort of the
  timeout) or resolves with a response; the backend is the outcome of each call, by
  the number of calls made before it. The log records, in order, every call of
  \<open>fetch\<close> and every wait of the retry delay with its milliseconds.
\<close>

record HttpResponse =
  ok :: bool
  status :: nat
  statusText :: string
  body :: "string list option"

type_synonym Backend = "nat \<Rightarrow> error + HttpResponse"

datatype NetEvent = Fetched | Waited nat

definition fetches :: "NetEvent list \<Rightarrow> nat" where
  "fetches netlog = length (filter (\<lambda>e. e = Fetched) netlog)"

definition retriesOrDefault :: "LocalLLMConfig \<Rightarrow> int" where
  "retriesOrDefault config =
     (case maxRetries config of None \<Rightarrow> 3 | Some n \<Rightarrow> if n \<noteq> 0 then n else 3)"

function makeRequest :: "Backend \<Rightarrow> int \<Rightarrow> NetEvent list \<Rightarrow> (error + HttpResponse) \<times> NetEvent list" where
  "makeRequest backend retries netlog =
     (let fetched = netlog @ [Fetched];
          waited = fetched @ [Waited 1000]
      in case backend (fetches netlog) of
           Inr response \<Rightarrow>
             if \<not> ok response \<and> retries > 0
             then makeRequest backend (retries - 1) waited
             else (Inr response, fetched)
         | Inl failure \<Rightarrow>
             if retries > 0
             then makeRequest backend (retries - 1) waited
             else (Inl failure, fetched))"
  by pat_completeness auto
termination
  by (relation "measure (\<lambda>(backend, retries, netlog). nat retries)") auto

declare makeRequest.simps [simp del]

definition makeRequestWithDefault :: "LocalLLMConfig \<Rightarrow> Backend \<Rightarrow> NetEvent list \<Rightarrow> (error + HttpResponse) \<times> NetEvent list" where
  "makeRequestWithDefault config backend netlog =
     makeRequest backend (retriesOrDefault config) netlog"

text \<open>Decimal digits of a natural number, for the messages and the formatted sizes.\<close>

definition digitChar :: "nat \<Rightarrow> char" where
  "digitChar d = ''0123456789'' ! d"

fun showNat :: "nat \<Rightarrow> string" where
  "showNat n = (if n < 10 then [digitChar n] else showNat (n div 10) @ [digitChar (n mod 10)])"

declare showNat.simps [simp del]

fun errorMessage :: "error \<Rightarrow> string" where
  "errorMessage (Error msg) = msg"
| "errorMessage (LocalLLMNotAvailableError providerName hostName portNumber) =
     ''Local LLM provider '' @ providerName @ '' not available at '' @ hostName @ '':'' @
     (if portNumber < 0 then ''-'' else []) @ showNat (nat \<bar>portNumber\<bar>)"
| "errorMessage (ModelNotAvailableError modelName available) =
     ''Model '' @ [CHR 0x22] @ modelName @ [CHR 0x22] @
     '' not available. Available models: '' @ join available '', ''"

section \<open>Ollama provider (llm/providers/OllamaProvider.ts)\<close>

record LocalModelInfo =
  infoName :: string
  infoSize :: string
  infoDigest :: string
  infoModified :: string

text \<open>
  \<open>ensureModelAvailable\<close> calls \<open>listModels\<close> and \<open>pullModel\<close>. Their outcomes are
  given by the environment; the calls made are recorded in order.
\<close>

datatype ProviderCall = ListModels | PullModel string | Chat

record ProviderEnv =
  listModelsOutcome :: "error + LocalModelInfo list"
  pullModelOutcome :: "string \<Rightarrow> error + unit"

definition ensureModelAvailable :: "LocalLLMConfig \<Rightarrow> ProviderEnv \<Rightarrow> (error + unit) \<times> ProviderCall list" where
  "ensureModelAvailable config env =
    (case listModelsOutcome env of
       Inl failure \<Rightarrow> (Inl failure, [ListModels])
     | Inr models \<Rightarrow>
        (let availableModelNames = map infoName models in
         if \<not> list_ex (\<lambda>n. startsWith n (modelId config)) availableModelNames
         then (case pullModelOutcome env (modelId config) of
                 Inl failure \<Rightarrow>
                   (Inl (ModelNotAvailableError (modelId config) availableModelNames),
                    [ListModels, PullModel (modelId config)])
               | Inr pulled \<Rightarrow> (Inr (), [ListModels, PullModel (modelId config)]))
         else (Inr (), [ListModels])))"

text \<open>
  \<open>generateContent\<close> and \<open>generateContentStream\<close> both start with
  \<open>await this.ensureModelAvailable()\<close>, outside every \<open>try\<close>; what follows (the
  conversion of the request, the chat call and the normalisation of the reply) runs
  only when it returned, and its outcome is the parameter \<open>chat\<close>.
\<close>

definition generateContent :: "LocalLLMConfig \<Rightarrow> ProviderEnv \<Rightarrow> (error + 'a) \<Rightarrow> (error + 'a) \<times> ProviderCall list" where
  "generateContent config env chat =
    (case ensureModelAvailable config env of
       (Inl failure, calls) \<Rightarrow> (Inl failure, calls)
     | (Inr ready, calls) \<Rightarrow> (chat, calls @ [Chat]))"

text \<open>
  \<open>formatBytes\<close>. The argument is a number that holds a byte count, a natural number.

  The index \<open>Math.floor(Math.log(bytes) / Math.log(1024))\<close> is computed on doubles
  by the platform's \<open>Math.log\<close>, which the language leaves to the implementation: its
  value for a byte count is the parameter \<open>logFloor\<close>.

  \<open>Math.pow(1024, i)\<close> is a power of two and the division by it is exact. The product
  with 100 is rounded to the nearest double: the integer \<open>bytes * 100\<close> is rounded to
  53 significant bits, ties to even. \<open>Math.round\<close> rounds half up. The quotient by 100
  has at most two decimals and prints in decimal notation without trailing zeros (as
  the shortest notation of a double does for a number of up to 15 digits).
  \<open>sizes[i]\<close> out of range prints as \<open>undefined\<close>.
\<close>

definition sizes :: "string list" where
  "sizes = [''Bytes'', ''KB'', ''MB'', ''GB'', ''TB'']"

fun bitLength :: "nat \<Rightarrow> nat" where
  "bitLength n = (if n = 0 then 0 else Suc (bitLength (n div 2)))"

declare bitLength.simps [simp del]

definition roundHalfEven :: "nat \<Rightarrow> nat \<Rightarrow> nat" where
  "roundHalfEven n d =
     (let q = n div 2 ^ d; r = n mod 2 ^ d
      in if 2 * r > 2 ^ d \<or> (2 * r = 2 ^ d \<and> odd q) then q + 1 else q)"

definition roundTo53Bits :: "nat \<Rightarrow> nat" where
  "roundTo53Bits n =
     (if bitLength n \<le> 53 then n
      else roundHalfEven n (bitLength n - 53) * 2 ^ (bitLength n - 53))"

definition scaledTimes100 :: "nat \<Rightarrow> nat \<Rightarrow> rat" where
  "scaledTimes100 bytes i = of_nat (roundTo53Bits (bytes * 100)) / 1024 ^ i"

definition roundHalfUp :: "rat \<Rightarrow> int" where
  "roundHalfUp x = \<lfloor>x + 1 / 2\<rfloor>"

definition numberToString :: "rat \<Rightarrow> string" where
  "numberToString x =
     (let hundredths = nat \<lfloor>x * 100\<rfloor> in
      showNat (hundredths div 100) @
      (if hundredths mod 100 = 0 then []
       else if hundredths mod 10 = 0 then ''.'' @ [digitChar (hundredths mod 100 div 10)]
       else ''.'' @ [digitChar (hundredths mod 100 div 10), digitChar (hundredths mod 10)]))"

definition formatBytes :: "(nat \<Rightarrow> nat) \<Rightarrow> nat \<Rightarrow> string" where
  "formatBytes logFloor bytes =
     (if bytes = 0 then ''0 Bytes''
      else (let i = logFloor bytes in
            numberToString (of_int (roundHalfUp (scaledTimes100 bytes i)) / 100) @
            '' '' @ (if i < length sizes then sizes ! i else ''undefined'')))"

text \<open>
  What the claim speaks of: the integer base-1024 logarithm of a byte count (the
  mathematical value of the index), the value scaled by that power and rounded half
  up to two decimals, and the number that a decimal notation denotes.
\<close>

fun unitIndex :: "nat \<Rightarrow> nat" where
  "unitIndex bytes = (if bytes < 1024 then 0 else Suc (unitIndex (bytes div 1024)))"

declare unitIndex.simps [simp del]

definition twoDecimals :: "nat \<Rightarrow> rat" where
  "twoDecimals bytes =
     of_int (roundHalfUp (of_nat bytes / 1024 ^ unitIndex bytes * 100)) / 100"

definition isDigit :: "char \<Rightarrow> bool" where
  "isDigit c = (48 \<le> (of_char c :: nat) \<and> (of_char c :: nat) \<le> 57)"

definition natOfDigits :: "string \<Rightarrow> nat" where
  "natOfDigits s = foldl (\<lambda>n c. 10 * n + (of_char c - 48)) 0 s"

definition decimalValue :: "string \<Rightarrow> rat" where
  "decimalValue s =
     (let whole = takeWhile (\<lambda>c. c \<noteq> CHR ''.'') s;
          fraction = drop 1 (dropWhile (\<lambda>c. c \<noteq> CHR ''.'') s)
      in of_nat (natOfDigits whole) + of_nat (natOfDigits fraction) / 10 ^ length fraction)"

definition decimalFraction :: "string \<Rightarrow> string" where
  "decimalFraction s = drop 1 (dropWhile (\<lambda>c. c \<noteq> CHR ''.'') s)"

text \<open>
  The streaming parser. The body is the sequence of decoded reads; \<open>JSON.parse\<close> is
  the parameter \<open>parse\<close>, \<open>None\<close> where it throws. The events are what the
  generator yields and what it logs, in order. The text is a list of 8-bit characters;
  \<open>trim\<close> removes the white space among them.
\<close>

definition newline :: char where
  "newline = CHR 0x0A"

definition isWhiteSpace :: "char \<Rightarrow> bool" where
  "isWhiteSpace c =
     (c \<in> set [CHR 0x09, CHR 0x0A, CHR 0x0B, CHR 0x0C, CHR 0x0D, CHR 0x20, CHR 0xA0])"

definition trim :: "string \<Rightarrow> string" where
  "trim s = rev (dropWhile isWhiteSpace (rev (dropWhile isWhiteSpace s)))"

fun splitLines :: "string \<Rightarrow> string list" where
  "splitLines [] = [[]]"
| "splitLines (c # cs) =
     (if c = newline then [] # splitLines cs
      else (case splitLines cs of
              [] \<Rightarrow> [[c]]
            | l # ls \<Rightarrow> (c # l) # ls))"

datatype StreamEvent = Yield GenerateContentResponse | Warn string

fun processLines :: "(string \<Rightarrow> LocalReply option) \<Rightarrow> string list \<Rightarrow> StreamEvent list \<times> bool" where
  "processLines parse [] = ([], False)"
| "processLines parse (line # rest) =
     (if trim line \<noteq> [] then
        (case parse line of
           Some chunk \<Rightarrow>
             if replyDone chunk then ([Yield (convertFromLocalFormat chunk)], True)
             else (case processLines parse rest of
                     (events, returned) \<Rightarrow> (Yield (convertFromLocalFormat chunk) # events, returned))
         | None \<Rightarrow>
             (case processLines parse rest of
                (events, returned) \<Rightarrow> (Warn line # events, returned)))
      else processLines parse rest)"

fun readLoop :: "(string \<Rightarrow> LocalReply option) \<Rightarrow> string list \<Rightarrow> string \<Rightarrow> StreamEvent list" where
  "readLoop parse [] buffer = []"
| "readLoop parse (chunkText # reads) buffer =
     (let lines = splitLines (buffer @ chunkText) in
      case processLines parse (butlast lines) of
        (events, returned) \<Rightarrow>
          if returned then events else events @ readLoop parse reads (last lines))"

definition processStreamResponse :: "(string \<Rightarrow> LocalReply option) \<Rightarrow> HttpResponse \<Rightarrow> error + StreamEvent list" where
  "processStreamResponse parse response =
     (case body response of
        None \<Rightarrow> Inl (Error ''No response body available for streaming'')
      | Some reads \<Rightarrow> Inr (readLoop parse reads []))"

fun yielded :: "StreamEvent list \<Rightarrow> GenerateContentResponse list" where
  "yielded [] = []"
| "yielded (Yield item # events) = item # yielded events"
| "yielded (Warn line # events) = yielded events"

fun warned :: "StreamEvent list \<Rightarrow> string list" where
  "warned [] = []"
| "warned (Yield item # events) = warned events"
| "warned (Warn line # events) = line # warned events"

text \<open>The complete lines of a text: split at newlines, without the unfinished rest.\<close>

definition completeLines :: "string \<Rightarrow> string list" where
  "completeLines s = butlast (splitLines s)"

text \<open>A counter that is missing counts as 0.\<close>

definition countOrZero :: "int option \<Rightarrow> int" where
  "countOrZero x = (case x of None \<Rightarrow> 0 | Some n \<Rightarrow> n)"

section \<open>Verified properties\<close>

subsection \<open>Task classification\<close>

lemma replicate_unfold: "replicate (numeral n) u = u # replicate (numeral n - 1) u"
  by (simp add: numeral_eq_Suc)

lemmas prompt_eval = toLowerCase_def toLowerUnit_def utf16_def replicate_unfold startsWith_def
  ctxHasCodeFiles_def

text \<open>
  Claim C1, as stated: the short-question rule tests the length of the prompt. The
  source tests the length of the lower-cased prompt, which is longer when the prompt
  has the code unit U+0130. For 25 of them and a question mark the prompt has length
  26 and the stated rule answers \<open>quick_questions\<close>, while the lower-cased prompt
  has length 51 and \<open>analyzeTaskType\<close> answers \<open>general_chat\<close>.
\<close>

theorem analyzeTaskType_raw_length_counterexample:
  "length (replicate 25 (304::nat) @ utf16 ''?'') = 26 \<and>
   length (toLowerCase (replicate 25 304 @ utf16 ''?'')) = 51 \<and>
   analyzeTaskType (replicate 25 304 @ utf16 ''?'') None = general_chat \<and>
   classifyAsStated (replicate 25 304 @ utf16 ''?'') None = quick_questions \<and>
   analyzeTaskType (replicate 25 304 @ utf16 ''?'') None \<noteq>
     classifyAsStated (replicate 25 304 @ utf16 ''?'') None"
proof -
  have n: "length (replicate 25 (304::nat) @ utf16 ''?'') = 26 \<and>
      length (toLowerCase (replicate 25 304 @ utf16 ''?'')) = 51"
    by (simp add: prompt_eval)
  have a: "analyzeTaskType (replicate 25 304 @ utf16 ''?'') None = general_chat"
    by (simp add: analyzeTaskType_def Let_def prompt_eval)
  have b: "classifyAsStated (replicate 25 304 @ utf16 ''?'') None = quick_questions"
    by (simp add: classifyAsStated_def classificationRules_def mentions_def startsWithAny_def
          prompt_eval)
  from n a b show ?thesis
    by simp
qed

text \<open>
  Claim C1, amended. For every prompt and optional project context, \<open>analyzeTaskType\<close>
  returns the answer of the first matching rule of the priority table: debugging, code
  generation, review, documentation, analysis (\<open>file_analysis\<close> with code files,
  \<open>general_chat\<close> without), the short-question heuristic (the lower-cased prompt is
  shorter than 50, and it has a question mark or starts with what, how or why),
  creative writing (not for prompts that mention \<open>code\<close>), planning, math and
  reasoning, and \<open>general_chat\<close> when no rule matches.
\<close>

theorem analyzeTaskType_priority_order:
  "analyzeTaskType p projectCtx = classifyByPriority p projectCtx"
  by (auto simp: analyzeTaskType_def classifyByPriority_def classificationRules_def
        mentions_def startsWithAny_def Let_def)

theorem analyzeTaskType_priority_order_witness:
  "analyzeTaskType (utf16 ''Fix the code?'') None = debugging \<and>
   classifyByPriority (utf16 ''Fix the code?'') None = debugging \<and>
   analyzeTaskType (utf16 ''Generate a poem'') None = creative_writing \<and>
   classifyByPriority (utf16 ''Generate a poem'') None = creative_writing"
proof -
  have a: "analyzeTaskType (utf16 ''Fix the code?'') None = debugging"
    by (simp add: analyzeTaskType_def Let_def prompt_eval)
  have b: "analyzeTaskType (utf16 ''Generate a poem'') None = creative_writing"
    by (simp add: analyzeTaskType_def Let_def prompt_eval)
  from a b analyzeTaskType_priority_order [of "utf16 ''Fix the code?''" None]
    analyzeTaskType_priority_order [of "utf16 ''Generate a poem''" None]
  show ?thesis by simp
qed

subsection \<open>Confidence model\<close>

lemma getTaskPreferences_total:
  "\<exists>ss pp. pref_strengths (getTaskPreferences t) = Some ss \<and>
           pref_performance (getTaskPreferences t) = Some pp"
  by (cases t) (simp_all add: mkPreferences_def)

lemma add_if: "(if c then a + x else a) = a + (if c then x else (0::rat))"
  by simp

lemma add_if_else: "(if c then a + x else a + y) = a + (if c then x else (y::rat))"
  by simp

text \<open>
  Claim C3. On the automatic path the confidence of a model for a task and a context
  is 0.5, plus 0.15 per strength tag of the model among the task's preferred
  strengths, plus 0.1 for a quality match, plus 0.05 for a speed match, plus 0.1 when
  the context has code files and the model has the coding strength, plus 0.1 when the
  prompt is longer than 500 and the quality is excellent, or else plus 0.1 when the
  prompt is shorter than 100 and the speed is fast; the sum is clamped at 1.
\<close>

theorem calculateConfidence_formula:
  "calculateConfidence m t ctx = confidenceFormula m t ctx"
proof -
  obtain ss pp where p: "pref_strengths (getTaskPreferences t) = Some ss"
      "pref_performance (getTaskPreferences t) = Some pp"
    using getTaskPreferences_total by blast
  show ?thesis
    unfolding calculateConfidence_def confidenceFormula_def preferredStrengths_def
       preferredQuality_def preferredSpeed_def matchingStrengths_def Let_def
    by (simp only: p option.case option.map option.inject add_if add_if_else)
qed

lemma calculateConfidence_bounds:
  "1 / 2 \<le> calculateConfidence m t ctx \<and> calculateConfidence m t ctx \<le> 1"
proof -
  obtain ss pp where p: "pref_strengths (getTaskPreferences t) = Some ss"
      "pref_performance (getTaskPreferences t) = Some pp"
    using getTaskPreferences_total by blast
  show ?thesis
    unfolding calculateConfidence_def Let_def
    by (simp add: p)
qed

subsection \<open>Recommendations\<close>

lemma sortByScoreDesc_set: "set (sortByScoreDesc xs) = set xs"
  by (simp add: sortByScoreDesc_def)

lemma sortByScoreDesc_sorted:
  "sorted_wrt (\<lambda>a b. snd b \<le> snd a) (sortByScoreDesc xs)"
proof -
  have "sorted (map (\<lambda>item. - snd item) (sortByScoreDesc xs))"
    by (simp add: sortByScoreDesc_def)
  then show ?thesis
    by (simp add: sorted_wrt_map)
qed

lemma sorted_wrt_take: "sorted_wrt P xs \<Longrightarrow> sorted_wrt P (take n xs)"
  by (metis append_take_drop_id sorted_wrt_append)

lemma getAlternatives_length: "length (getAlternatives sel t av) \<le> 2"
  by (simp add: getAlternatives_def)

lemma getAlternatives_member:
  assumes "a \<in> set (getAlternatives sel t av)"
  shows "name a \<noteq> name sel \<and> name a \<in> set av \<and> a \<in> set MODEL_CATALOG"
proof -
  from assms obtain item where
    "item \<in> set (take 2 (sortByScoreDesc (map (\<lambda>m. (m, serviceScoreModelForTask m t))
        (filter (\<lambda>m. name m \<noteq> name sel \<and> name m \<in> set av) MODEL_CATALOG))))"
    and a: "a = fst item"
    by (auto simp: getAlternatives_def)
  then have "item \<in> set (map (\<lambda>m. (m, serviceScoreModelForTask m t))
        (filter (\<lambda>m. name m \<noteq> name sel \<and> name m \<in> set av) MODEL_CATALOG))"
    using in_set_takeD sortByScoreDesc_set by fastforce
  with a show ?thesis by auto
qed

lemma getAlternatives_sorted:
  "sorted_wrt (\<lambda>a b. serviceScoreModelForTask b t \<le> serviceScoreModelForTask a t)
     (getAlternatives sel t av)"
proof -
  let ?scored = "map (\<lambda>m. (m, serviceScoreModelForTask m t))
        (filter (\<lambda>m. name m \<noteq> name sel \<and> name m \<in> set av) MODEL_CATALOG)"
  let ?top = "take 2 (sortByScoreDesc ?scored)"
  have s: "sorted_wrt (\<lambda>a b. snd b \<le> snd a) ?top"
    by (rule sorted_wrt_take) (rule sortByScoreDesc_sorted)
  have k: "snd item = serviceScoreModelForTask (fst item) t" if "item \<in> set ?top" for item
  proof -
    from that have "item \<in> set ?scored"
      using in_set_takeD sortByScoreDesc_set by fastforce
    then show ?thesis by auto
  qed
  have "sorted_wrt (\<lambda>a b. serviceScoreModelForTask (fst b) t \<le> serviceScoreModelForTask (fst a) t) ?top"
    by (rule sorted_wrt_mono_rel [OF _ s]) (simp add: k)
  then show ?thesis
    by (simp add: getAlternatives_def sorted_wrt_map)
qed

lemma recommendModel_available:
  assumes "recommendModel t av = Some m"
  shows "name m \<in> set av \<and> m \<in> set MODEL_CATALOG"
proof -
  let ?scored = "map (\<lambda>m. (m, scoreModelForTask m t)) (filter (\<lambda>m. name m \<in> set av) MODEL_CATALOG)"
  from assms obtain item rest where
    "sortByScoreDesc ?scored = item # rest" and m: "m = fst item"
    by (auto simp: recommendModel_def Let_def split: if_splits list.splits)
  then have "item \<in> set (sortByScoreDesc ?scored)" by simp
  then have "item \<in> set ?scored" by (simp only: sortByScoreDesc_set)
  with m show ?thesis by auto
qed

lemma recommendModel_None:
  "recommendModel t av = None \<longleftrightarrow> filter (\<lambda>m. name m \<in> set av) MODEL_CATALOG = []"
proof -
  have "sortByScoreDesc xs = [] \<longleftrightarrow> xs = []" for xs
    using sortByScoreDesc_set [of xs] by (metis set_empty)
  then show ?thesis
    by (auto simp: recommendModel_def Let_def split: list.splits)
qed

lemma manualOverride_available:
  assumes "manualOverride ctx av = Some m"
  shows "name m \<in> set av \<and> m \<in> set MODEL_CATALOG"
  using assms
  by (auto simp: manualOverride_def find_Some_iff split: option.splits if_splits)

lemma find_available:
  assumes "find (\<lambda>m. name m \<in> set av) MODEL_CATALOG = Some m"
  shows "name m \<in> set av"
  using assms by (auto simp: find_Some_iff)

text \<open>
  The fallback branch of \<open>recommend\<close> is never taken: \<open>recommendModel\<close> answers
  \<open>null\<close> only when no catalog model is available, and then the fallback's own
  search of the catalog finds nothing either.
\<close>

lemma fallback_unreachable:
  "recommendModel t av = None \<Longrightarrow> find (\<lambda>m. name m \<in> set av) MODEL_CATALOG = None"
  by (simp add: recommendModel_None find_None_iff filter_empty_conv)

lemma recommend_cases:
  assumes "recommend ctx = Inr r"
  shows "(\<exists>m. manualOverride ctx (availableOrCatalog ctx) = Some m \<and>
              r = manualRecommendation m (analyzeTaskType (prompt ctx) (projectContext ctx)) (availableOrCatalog ctx))
       \<or> (\<exists>m. manualOverride ctx (availableOrCatalog ctx) = None \<and>
              recommendModel (analyzeTaskType (prompt ctx) (projectContext ctx)) (availableOrCatalog ctx) = Some m \<and>
              r = automaticRecommendation m (analyzeTaskType (prompt ctx) (projectContext ctx)) ctx (availableOrCatalog ctx))"
  using assms fallback_unreachable
  by (auto simp: recommend_def Let_def split: option.splits)


lemma recommend_shape:
  assumes "recommend ctx = Inr r"
  shows "name (model r) \<in> set (availableOrCatalog ctx) \<and>
         alternatives r = getAlternatives (model r) (taskType r) (availableOrCatalog ctx)"
  using recommend_cases [OF assms]
proof (elim disjE exE conjE)
  fix m assume "manualOverride ctx (availableOrCatalog ctx) = Some m"
    and "r = manualRecommendation m (analyzeTaskType (prompt ctx) (projectContext ctx)) (availableOrCatalog ctx)"
  then show ?thesis
    using manualOverride_available [of ctx "availableOrCatalog ctx" m]
    by (simp add: manualRecommendation_def)
next
  fix m assume "recommendModel (analyzeTaskType (prompt ctx) (projectContext ctx)) (availableOrCatalog ctx) = Some m"
    and "r = automaticRecommendation m (analyzeTaskType (prompt ctx) (projectContext ctx)) ctx (availableOrCatalog ctx)"
  then show ?thesis
    using recommendModel_available [of _ "availableOrCatalog ctx" m]
    by (simp add: automaticRecommendation_def)
qed

text \<open>
  Claim C4. When the caller supplies an available-model set, every recommendation
  that \<open>recommend\<close> returns selects a model whose name is in that set; its
  alternatives are at most two, never contain the selected model (nor a model of its
  name), and are in descending order of the score for the task.
\<close>

theorem recommend_respects_available:
  assumes "availableModels ctx = Some av" and "recommend ctx = Inr r"
  shows "name (model r) \<in> set av \<and>
         length (alternatives r) \<le> 2 \<and>
         model r \<notin> set (alternatives r) \<and>
         name (model r) \<notin> set (map name (alternatives r)) \<and>
         sorted_wrt (\<lambda>a b. serviceScoreModelForTask b (taskType r) \<le> serviceScoreModelForTask a (taskType r))
           (alternatives r)"
proof -
  have av: "availableOrCatalog ctx = av"
    using assms(1) by (simp add: availableOrCatalog_def)
  have sh: "name (model r) \<in> set av"
      "alternatives r = getAlternatives (model r) (taskType r) av"
    using recommend_shape [OF assms(2)] by (simp_all add: av)
  have 1: "length (alternatives r) \<le> 2"
    by (simp only: sh(2) getAlternatives_length)
  have 2: "name a \<noteq> name (model r)" if "a \<in> set (alternatives r)" for a
    using that getAlternatives_member [of a "model r" "taskType r" av]
    by (simp add: sh(2) [symmetric])
  have 3: "model r \<notin> set (alternatives r)"
    using 2 by blast
  have 4: "name (model r) \<notin> set (map name (alternatives r))"
    using 2 by force
  have 5: "sorted_wrt (\<lambda>a b. serviceScoreModelForTask b (taskType r) \<le> serviceScoreModelForTask a (taskType r))
           (alternatives r)"
    using getAlternatives_sorted [of "taskType r" "model r" av] by (simp add: sh(2) [symmetric])
  from sh(1) 1 3 4 5 show ?thesis by blast
qed

theorem recommend_respects_available_witness:
  "\<exists>r. recommend \<lparr> prompt = utf16 ''fix this bug'', projectContext = None, userPreferences = None,
                     availableModels = Some [''phi3:mini'', ''gpt-oss:latest'', ''gemma3:4b'', ''tinyllama:latest''] \<rparr>
          = Inr r \<and>
        name (model r) = ''gpt-oss:latest'' \<and>
        map name (alternatives r) = [''gemma3:4b'', ''phi3:mini''] \<and>
        name (model r) \<in> set [''phi3:mini'', ''gpt-oss:latest'', ''gemma3:4b'', ''tinyllama:latest''] \<and>
        length (alternatives r) \<le> 2 \<and>
        model r \<notin> set (alternatives r) \<and>
        name (model r) \<notin> set (map name (alternatives r)) \<and>
        sorted_wrt (\<lambda>a b. serviceScoreModelForTask b (taskType r) \<le> serviceScoreModelForTask a (taskType r))
          (alternatives r)"
proof -
  let ?av = "[''phi3:mini'', ''gpt-oss:latest'', ''gemma3:4b'', ''tinyllama:latest'']"
  let ?ctx = "\<lparr> prompt = utf16 ''fix this bug'', projectContext = None, userPreferences = None,
                availableModels = Some ?av \<rparr>"
  let ?r = "automaticRecommendation (MODEL_CATALOG ! 1) debugging ?ctx ?av"
  have r: "recommend ?ctx = Inr ?r"
    by code_simp
  have n: "name (model ?r) = ''gpt-oss:latest''"
    by code_simp
  have a: "map name (alternatives ?r) = [''gemma3:4b'', ''phi3:mini'']"
    by code_simp
  have "availableModels ?ctx = Some ?av"
    by simp
  from r n a recommend_respects_available [OF this r] show ?thesis
    by - (rule exI [of _ ?r], (rule conjI, assumption)+, assumption)
qed

text \<open>
  Claim C8. Every confidence that \<open>recommend\<close> produces lies in the closed interval
  from 0 to 1: the object of the manual branch carries exactly 1, the object of the
  fallback branch exactly 0.3, and the confidence computed on the automatic branch is
  neither above 1 nor below 0.
\<close>

theorem recommend_confidence_in_unit_interval:
  assumes "recommend ctx = Inr r"
  shows "0 \<le> confidence r \<and> confidence r \<le> 1 \<and>
         (case manualOverride ctx (availableOrCatalog ctx) of
            Some preferred \<Rightarrow> confidence r = 1.0
          | None \<Rightarrow> confidence r = calculateConfidence (model r) (taskType r) ctx) \<and>
         confidence (manualRecommendation preferred t av) = 1.0 \<and>
         confidence (fallbackRecommendation fallbackModel t) = 0.3 \<and>
         0 \<le> confidence (automaticRecommendation recommended t ctx' av) \<and>
         confidence (automaticRecommendation recommended t ctx' av) \<le> 1"
proof -
  have b: "0 \<le> calculateConfidence m' t' c' \<and> calculateConfidence m' t' c' \<le> 1" for m' t' c'
    using calculateConfidence_bounds [of m' t' c'] by simp
  have paths: "confidence (manualRecommendation preferred t av) = 1.0"
      "confidence (fallbackRecommendation fallbackModel t) = 0.3"
      "0 \<le> confidence (automaticRecommendation recommended t ctx' av)"
      "confidence (automaticRecommendation recommended t ctx' av) \<le> 1"
    using b [of recommended t ctx']
    by (simp_all add: manualRecommendation_def fallbackRecommendation_def
          automaticRecommendation_def)
  from recommend_cases [OF assms]
  have r: "0 \<le> confidence r \<and> confidence r \<le> 1 \<and>
         (case manualOverride ctx (availableOrCatalog ctx) of
            Some preferred \<Rightarrow> confidence r = 1.0
          | None \<Rightarrow> confidence r = calculateConfidence (model r) (taskType r) ctx)"
  proof (elim disjE exE conjE)
    fix m assume "manualOverride ctx (availableOrCatalog ctx) = Some m"
      and "r = manualRecommendation m (analyzeTaskType (prompt ctx) (projectContext ctx)) (availableOrCatalog ctx)"
    then show ?thesis
      by (simp add: manualRecommendation_def)
  next
    fix m assume "manualOverride ctx (availableOrCatalog ctx) = None"
      and "r = automaticRecommendation m (analyzeTaskType (prompt ctx) (projectContext ctx)) ctx (availableOrCatalog ctx)"
    then show ?thesis
      using b [of m "analyzeTaskType (prompt ctx) (projectContext ctx)" ctx]
      by (simp add: automaticRecommendation_def)
  qed
  from r paths show ?thesis by blast
qed

theorem recommend_confidence_in_unit_interval_witness:
  "\<exists>r. recommend \<lparr> prompt = utf16 ''What is a monad?'', projectContext = None,
                     userPreferences = Some \<lparr> mode = ModeManual, preferredModel = Some ''phi3:mini'',
                                              allowFallback = None, showRecommendations = None \<rparr>,
                     availableModels = Some [''phi3:mini'', ''gpt-oss:latest''] \<rparr> = Inr r \<and>
        confidence r = 1 \<and> 0 \<le> confidence r \<and> confidence r \<le> 1"
proof -
  let ?av = "[''phi3:mini'', ''gpt-oss:latest'']"
  let ?ctx = "\<lparr> prompt = utf16 ''What is a monad?'', projectContext = None,
                userPreferences = Some \<lparr> mode = ModeManual, preferredModel = Some ''phi3:mini'',
                                         allowFallback = None, showRecommendations = None \<rparr>,
                availableModels = Some ?av \<rparr>"
  let ?r = "manualRecommendation (MODEL_CATALOG ! 4) quick_questions ?av"
  have r: "recommend ?ctx = Inr ?r"
    by code_simp
  have c: "confidence ?r = 1"
    by (simp add: manualRecommendation_def)
  from recommend_confidence_in_unit_interval [OF r] r c show ?thesis
    by blast
qed

text \<open>
  Claim C10. For every model, task type and context \<open>calculateConfidence\<close> is between
  0.5 and 1: it starts at 0.5 and only adds before it is clamped. So a recommendation
  of the automatic branch (neither manual nor fallback) has a confidence of at least
  0.5, above the 0.3 of the fallback object.
\<close>

theorem calculateConfidence_at_least_half:
  "0.5 \<le> calculateConfidence m t ctx \<and> calculateConfidence m t ctx \<le> 1.0 \<and>
   0.5 \<le> confidence (automaticRecommendation m t ctx av) \<and>
   confidence (fallbackRecommendation fallbackModel t') < confidence (automaticRecommendation m t ctx av) \<and>
   (manualOverride ctx (availableOrCatalog ctx) = None \<longrightarrow> recommend ctx = Inr r \<longrightarrow>
      r = automaticRecommendation (model r) (taskType r) ctx (availableOrCatalog ctx) \<and>
      0.5 \<le> confidence r \<and> 0.3 < confidence r)"
proof -
  have b: "1 / 2 \<le> calculateConfidence m' t'' c'" for m' t'' c'
    using calculateConfidence_bounds [of m' t'' c'] by simp
  have 1: "0.5 \<le> calculateConfidence m t ctx \<and> calculateConfidence m t ctx \<le> 1.0"
    using calculateConfidence_bounds [of m t ctx] by simp
  have 2: "0.5 \<le> confidence (automaticRecommendation m t ctx av)"
    using 1 by (simp add: automaticRecommendation_def)
  have 3: "confidence (fallbackRecommendation fallbackModel t') < confidence (automaticRecommendation m t ctx av)"
    using b [of m t ctx] by (simp add: automaticRecommendation_def fallbackRecommendation_def)
  have 4: "r = automaticRecommendation (model r) (taskType r) ctx (availableOrCatalog ctx) \<and>
      0.5 \<le> confidence r \<and> 0.3 < confidence r"
    if "manualOverride ctx (availableOrCatalog ctx) = None" and "recommend ctx = Inr r"
  proof -
    from recommend_cases [OF that(2)] that(1) obtain m' where
      "r = automaticRecommendation m' (analyzeTaskType (prompt ctx) (projectContext ctx)) ctx (availableOrCatalog ctx)"
      by auto
    then show ?thesis
      using b [of m' "analyzeTaskType (prompt ctx) (projectContext ctx)" ctx]
      by (simp add: automaticRecommendation_def)
  qed
  from 1 2 3 4 show ?thesis by blast
qed

theorem calculateConfidence_at_least_half_witness:
  "\<exists>r. recommend \<lparr> prompt = utf16 ''plan the release'', projectContext = None, userPreferences = None,
                     availableModels = Some [''tinyllama:latest''] \<rparr> = Inr r \<and>
        manualOverride \<lparr> prompt = utf16 ''plan the release'', projectContext = None, userPreferences = None,
                          availableModels = Some [''tinyllama:latest''] \<rparr> [''tinyllama:latest''] = None \<and>
        confidence r = 0.6 \<and> 0.5 \<le> confidence r \<and> 0.3 < confidence r"
proof -
  let ?av = "[''tinyllama:latest'']"
  let ?ctx = "\<lparr> prompt = utf16 ''plan the release'', projectContext = None, userPreferences = None,
                availableModels = Some ?av \<rparr>"
  let ?r = "automaticRecommendation (MODEL_CATALOG ! 5) project_planning ?ctx ?av"
  have r: "recommend ?ctx = Inr ?r"
    by code_simp
  have m: "manualOverride ?ctx ?av = None"
    by (simp add: manualOverride_def)
  have a: "availableOrCatalog ?ctx = ?av"
    by (simp add: availableOrCatalog_def)
  have c: "confidence ?r = 0.6"
    by code_simp
  from calculateConfidence_at_least_half [of "MODEL_CATALOG ! 5" project_planning ?ctx ?av
      "MODEL_CATALOG ! 5" project_planning ?r] r m a c
  show ?thesis
    by (intro exI [of _ ?r]) simp
qed

subsection \<open>Request execution with retries\<close>

lemma makeRequest_all_fail:
  assumes "\<And>i. case backend i of Inl failure \<Rightarrow> True | Inr response \<Rightarrow> \<not> ok response"
    and "0 \<le> retries"
  shows "makeRequest backend retries netlog =
           (backend (fetches netlog + nat retries),
            netlog @ concat (replicate (nat retries) [Fetched, Waited 1000]) @ [Fetched])"
  using assms(2)
proof (induction "nat retries" arbitrary: retries netlog)
  case 0
  then have r: "retries = 0" by simp
  show ?case
    using assms(1) [of "fetches netlog"]
    by (subst makeRequest.simps) (auto simp: r Let_def split: sum.splits)
next
  case (Suc n)
  then have pos: "retries > 0" and n: "n = nat (retries - 1)" and nn: "0 \<le> retries - 1"
    by simp_all
  have nr: "nat retries = Suc (nat (retries - 1))"
    using pos by simp
  have f: "fetches (netlog @ [Fetched, Waited 1000]) = Suc (fetches netlog)"
    by (simp add: fetches_def)
  show ?case
    using assms(1) [of "fetches netlog"]
      Suc.hyps(1) [OF n nn, of "(netlog @ [Fetched]) @ [Waited 1000]"]
    by (subst makeRequest.simps)
       (auto simp: Let_def pos nr f split: sum.splits)
qed

text \<open>
  Claim C2. With the default retry budget of 3, when the backend answers every
  attempt with a non-success response, \<open>makeRequest\<close> makes exactly 4 attempts (the
  first and 3 retries), waits the fixed delay of 1000 ms before each retry, and hands
  the outcome of the last attempt, a non-success response, to the caller.
\<close>

theorem makeRequest_default_budget_exhausted:
  assumes "\<forall>i. \<exists>response. backend i = Inr response \<and> \<not> ok response"
    and "retriesOrDefault config = 3"
  shows "makeRequestWithDefault config backend [] =
           (backend 3,
            [Fetched, Waited 1000, Fetched, Waited 1000, Fetched, Waited 1000, Fetched]) \<and>
         fetches (snd (makeRequestWithDefault config backend [])) = 4 \<and>
         (\<exists>response. backend 3 = Inr response \<and> \<not> ok response)"
proof -
  have "case backend i of Inl failure \<Rightarrow> True | Inr response \<Rightarrow> \<not> ok response" for i
    using assms(1) by (metis old.sum.simps(6))
  from makeRequest_all_fail [of backend 3 "[]", OF this]
  show ?thesis
    using assms(1) by (simp add: makeRequestWithDefault_def assms(2) numeral_3_eq_3 fetches_def)
qed

theorem makeRequest_default_budget_exhausted_witness:
  "makeRequestWithDefault
     \<lparr> provider = ollama, host = ''localhost'', port = 11434, modelId = ''llama3.1'',
       timeoutMs = Some 60000, maxRetries = Some 3, temperature = Some 0.7,
       maxTokens = Some 2048, contextSize = Some 4096 \<rparr>
     (\<lambda>i. Inr \<lparr> ok = False, status = 500, statusText = ''Internal Server Error'', body = None \<rparr>)
     [] =
   (Inr \<lparr> ok = False, status = 500, statusText = ''Internal Server Error'', body = None \<rparr>,
    [Fetched, Waited 1000, Fetched, Waited 1000, Fetched, Waited 1000, Fetched])"
  using makeRequest_default_budget_exhausted
    [of "\<lambda>i. Inr \<lparr> ok = False, status = 500, statusText = ''Internal Server Error'', body = None \<rparr>"
        "\<lparr> provider = ollama, host = ''localhost'', port = 11434, modelId = ''llama3.1'',
           timeoutMs = Some 60000, maxRetries = Some 3, temperature = Some 0.7,
           maxTokens = Some 2048, contextSize = Some 4096 \<rparr>"]
  by (simp add: retriesOrDefault_def)

subsection \<open>Normalising a reply\<close>

text \<open>
  Claim C7, as stated: the usage metadata is populated if and only if the reply has a
  prompt-evaluation counter. It fails on a reply whose counter is present and 0: the
  test of the source is the truthiness of the counter.
\<close>

theorem usageMetadata_iff_present_counterexample:
  "\<not> (usageMetadata (convertFromLocalFormat
          \<lparr> replyMessage = Some \<lparr> messageRole = ''assistant'', messageContent = ''ok'' \<rparr>,
            replyContent = None, replyDone = True,
            prompt_eval_count = Some 0, eval_count = Some 5 \<rparr>) \<noteq> None
       \<longleftrightarrow> prompt_eval_count
          \<lparr> replyMessage = Some \<lparr> messageRole = ''assistant'', messageContent = ''ok'' \<rparr>,
            replyContent = None, replyDone = True,
            prompt_eval_count = Some 0, eval_count = Some 5 \<rparr> \<noteq> None)"
  by (simp add: convertFromLocalFormat_def)

text \<open>
  Claim C7, amended. The usage metadata of the normalised reply is populated if and
  only if the prompt-evaluation counter is present and not 0; when it is populated,
  its total is the sum of the prompt counter and the completion counter, each counted
  as 0 when missing.
\<close>

theorem usageMetadata_iff_nonzero_counter:
  "(usageMetadata (convertFromLocalFormat response) \<noteq> None \<longleftrightarrow>
      (\<exists>n. prompt_eval_count response = Some n \<and> n \<noteq> 0)) \<and>
   (\<forall>usage. usageMetadata (convertFromLocalFormat response) = Some usage \<longrightarrow>
      totalTokenCount usage =
        countOrZero (prompt_eval_count response) + countOrZero (eval_count response))"
  by (auto simp: convertFromLocalFormat_def orZero_def countOrZero_def split: option.splits)

theorem usageMetadata_iff_nonzero_counter_witness:
  "usageMetadata (convertFromLocalFormat
      \<lparr> replyMessage = Some \<lparr> messageRole = ''assistant'', messageContent = ''ok'' \<rparr>,
        replyContent = None, replyDone = True,
        prompt_eval_count = Some 12, eval_count = None \<rparr>) =
     Some \<lparr> promptTokenCount = 12, candidatesTokenCount = None, totalTokenCount = 12 \<rparr> \<and>
   totalTokenCount \<lparr> promptTokenCount = 12, candidatesTokenCount = None, totalTokenCount = 12 \<rparr> =
     countOrZero (Some 12) + countOrZero None"
  using usageMetadata_iff_nonzero_counter
    [of "\<lparr> replyMessage = Some \<lparr> messageRole = ''assistant'', messageContent = ''ok'' \<rparr>,
           replyContent = None, replyDone = True,
           prompt_eval_count = Some 12, eval_count = None \<rparr>"]
  by (simp add: convertFromLocalFormat_def orZero_def countOrZero_def)

subsection \<open>Model presence\<close>

text \<open>
  Claim C6. Before generation the provider lists the installed models. If the name
  of an installed model starts with the configured model id, nothing more is done.
  If none does, it attempts to pull the configured model; if the pull fails,
  \<open>ensureModelAvailable\<close>, and with it the generation, fails with
  \<open>ModelNotAvailableError\<close> built from the requested model id and the names of all
  installed models, and its message holds both.
\<close>

theorem ensureModelAvailable_pull_failure:
  assumes "listModelsOutcome env = Inr models"
  shows "(list_ex (\<lambda>n. startsWith n (modelId config)) (map infoName models) \<longrightarrow>
            ensureModelAvailable config env = (Inr (), [ListModels])) \<and>
         (\<not> list_ex (\<lambda>n. startsWith n (modelId config)) (map infoName models) \<longrightarrow>
            snd (ensureModelAvailable config env) = [ListModels, PullModel (modelId config)] \<and>
            (pullModelOutcome env (modelId config) = Inl failure \<longrightarrow>
               ensureModelAvailable config env =
                 (Inl (ModelNotAvailableError (modelId config) (map infoName models)),
                  [ListModels, PullModel (modelId config)]) \<and>
               generateContent config env chat =
                 (Inl (ModelNotAvailableError (modelId config) (map infoName models)),
                  [ListModels, PullModel (modelId config)]) \<and>
               errorMessage (ModelNotAvailableError (modelId config) (map infoName models)) =
                 ''Model '' @ [CHR 0x22] @ modelId config @ [CHR 0x22] @
                 '' not available. Available models: '' @ join (map infoName models) '', ''))"
  using assms
  by (auto simp: ensureModelAvailable_def generateContent_def Let_def split: sum.splits)

theorem ensureModelAvailable_pull_failure_witness:
  "generateContent
     \<lparr> provider = ollama, host = ''localhost'', port = 11434, modelId = ''llama3.1'',
       timeoutMs = Some 60000, maxRetries = Some 3, temperature = Some 0.7,
       maxTokens = Some 2048, contextSize = Some 4096 \<rparr>
     \<lparr> listModelsOutcome =
         Inr [ \<lparr> infoName = ''phi3:mini'', infoSize = ''2.03 GB'', infoDigest = ''4f22'', infoModified = ''2025'' \<rparr>,
               \<lparr> infoName = ''gemma3:4b'', infoSize = ''3.11 GB'', infoDigest = ''a2af'', infoModified = ''2025'' \<rparr> ],
       pullModelOutcome = (\<lambda>n. Inl (Error ''Failed to pull model: Not Found'')) \<rparr>
     (Inr ()) =
   (Inl (ModelNotAvailableError ''llama3.1'' [''phi3:mini'', ''gemma3:4b'']),
    [ListModels, PullModel ''llama3.1'']) \<and>
   errorMessage (ModelNotAvailableError ''llama3.1'' [''phi3:mini'', ''gemma3:4b'']) =
     ''Model '' @ [CHR 0x22] @ ''llama3.1'' @ [CHR 0x22] @
     '' not available. Available models: phi3:mini, gemma3:4b''"
  using ensureModelAvailable_pull_failure
    [of "\<lparr> listModelsOutcome =
             Inr [ \<lparr> infoName = ''phi3:mini'', infoSize = ''2.03 GB'', infoDigest = ''4f22'', infoModified = ''2025'' \<rparr>,
                   \<lparr> infoName = ''gemma3:4b'', infoSize = ''3.11 GB'', infoDigest = ''a2af'', infoModified = ''2025'' \<rparr> ],
           pullModelOutcome = (\<lambda>n. Inl (Error ''Failed to pull model: Not Found'')) \<rparr>"
        "[ \<lparr> infoName = ''phi3:mini'', infoSize = ''2.03 GB'', infoDigest = ''4f22'', infoModified = ''2025'' \<rparr>,
           \<lparr> infoName = ''gemma3:4b'', infoSize = ''3.11 GB'', infoDigest = ''a2af'', infoModified = ''2025'' \<rparr> ]"
        "\<lparr> provider = ollama, host = ''localhost'', port = 11434, modelId = ''llama3.1'',
           timeoutMs = Some 60000, maxRetries = Some 3, temperature = Some 0.7,
           maxTokens = Some 2048, contextSize = Some 4096 \<rparr>"
        "Error ''Failed to pull model: Not Found''" "Inr ()"]
  by (simp add: startsWith_def)

subsection \<open>Formatting byte sizes\<close>

lemma floor_numeral_div: "\<lfloor>(numeral a :: rat) / numeral b\<rfloor> = numeral a div numeral b"
  using floor_divide_of_int_eq [of "numeral a" "numeral b", where ?'a = rat] by simp

lemmas formatBytes_eval = formatBytes_def unitIndex.simps numberToString_def roundHalfUp_def
  scaledTimes100_def roundTo53Bits_def roundHalfEven_def bitLength.simps twoDecimals_def
  showNat.simps digitChar_def sizes_def Let_def floor_numeral_div

lemma unitIndex_bounds: "0 < b \<Longrightarrow> 1024 ^ unitIndex b \<le> b \<and> b < 1024 ^ Suc (unitIndex b)"
proof (induction b rule: unitIndex.induct)
  case (1 b)
  show ?case
  proof (cases "b < 1024")
    case True
    with 1(2) show ?thesis by (simp add: unitIndex.simps [of b])
  next
    case False
    then have "0 < b div 1024" by (simp add: div_greater_zero_iff)
    with 1(1) False have ih: "1024 ^ unitIndex (b div 1024) \<le> b div 1024"
       "b div 1024 < 1024 ^ Suc (unitIndex (b div 1024))" by simp_all
    have u: "unitIndex b = Suc (unitIndex (b div 1024))"
      using False by (simp add: unitIndex.simps [of b])
    have "1024 * 1024 ^ unitIndex (b div 1024) \<le> 1024 * (b div 1024)"
      using ih(1) by simp
    also have "\<dots> \<le> b" by simp
    finally have lo: "1024 ^ unitIndex b \<le> b" by (simp add: u)
    have "b < 1024 * (b div 1024 + 1)"
      by (metis dividend_less_times_div zero_less_numeral Suc_eq_plus1 mult_Suc_right)
    also have "\<dots> \<le> 1024 * 1024 ^ Suc (unitIndex (b div 1024))"
      using ih(2) by simp
    finally have "b < 1024 ^ Suc (unitIndex b)" by (simp add: u)
    with lo show ?thesis by simp
  qed
qed

lemma unitIndex_less_5: "0 < b \<Longrightarrow> b < 1024 ^ 5 \<Longrightarrow> unitIndex b < 5"
proof -
  assume "0 < b" and "b < 1024 ^ 5"
  then have "(1024::nat) ^ unitIndex b < 1024 ^ 5"
    using unitIndex_bounds [of b] by simp
  then show ?thesis
    by (simp only: power_strict_increasing_iff one_less_numeral_iff semiring_norm)
qed

lemma roundHalfUp_close: "\<bar>of_int (roundHalfUp x) / 100 - x / 100\<bar> \<le> (1 / 200 :: rat)"
proof -
  have "of_int \<lfloor>x + 1 / 2\<rfloor> \<le> x + 1 / 2" "x + 1 / 2 < of_int \<lfloor>x + 1 / 2\<rfloor> + 1"
    by linarith+
  then have "\<bar>of_int \<lfloor>x + 1 / 2\<rfloor> - x\<bar> \<le> 1 / 2"
    by linarith
  then have "\<bar>of_int (roundHalfUp x) - x\<bar> / 100 \<le> (1 / 2) / 100"
    unfolding roundHalfUp_def by (rule divide_right_mono) simp
  then show ?thesis
    by (simp add: diff_divide_distrib [symmetric])
qed

lemma bitLength_le: "n < 2 ^ k \<Longrightarrow> bitLength n \<le> k"
proof (induction k arbitrary: n)
  case 0
  then have "n = 0" by simp
  then show ?case by (simp add: bitLength.simps [of 0])
next
  case (Suc k)
  show ?case
  proof (cases "n = 0")
    case True
    then show ?thesis by (simp add: bitLength.simps [of 0])
  next
    case False
    have "n div 2 < 2 ^ k"
      using Suc.prems by simp
    then have "bitLength (n div 2) \<le> k"
      by (rule Suc.IH)
    then show ?thesis
      using False by (simp add: bitLength.simps [of n])
  qed
qed

lemma roundTo53Bits_exact: "n < 2 ^ 53 \<Longrightarrow> roundTo53Bits n = n"
  using bitLength_le [of n 53] by (simp add: roundTo53Bits_def)

lemma scaledTimes100_exact:
  "bytes * 100 < 2 ^ 53 \<Longrightarrow> scaledTimes100 bytes i = of_nat bytes / 1024 ^ i * 100"
  by (simp add: scaledTimes100_def roundTo53Bits_exact)

lemma digitChar_facts:
  assumes "d < 10"
  shows "isDigit (digitChar d)" and "of_char (digitChar d) - 48 = d"
    and "digitChar d \<noteq> CHR ''.''" and "digitChar d = CHR ''0'' \<longleftrightarrow> d = 0"
proof -
  from assms have "d = 0 \<or> d = 1 \<or> d = 2 \<or> d = 3 \<or> d = 4 \<or> d = 5 \<or> d = 6 \<or> d = 7 \<or> d = 8 \<or> d = 9"
    by arith
  then show "isDigit (digitChar d)" and "of_char (digitChar d) - 48 = d"
    and "digitChar d \<noteq> CHR ''.''" and "digitChar d = CHR ''0'' \<longleftrightarrow> d = 0"
    by (auto simp: digitChar_def isDigit_def)
qed

lemma natOfDigits_snoc: "natOfDigits (s @ [c]) = 10 * natOfDigits s + (of_char c - 48)"
  by (simp add: natOfDigits_def)

lemma showNat_digits: "list_all isDigit (showNat n) \<and> natOfDigits (showNat n) = n"
proof (induction n rule: showNat.induct)
  case (1 n)
  show ?case
  proof (cases "n < 10")
    case True
    then show ?thesis
      using digitChar_facts [of n] by (simp add: showNat.simps [of n] natOfDigits_def)
  next
    case False
    with 1 have ih: "list_all isDigit (showNat (n div 10))" "natOfDigits (showNat (n div 10)) = n div 10"
      by simp_all
    have m: "n mod 10 < 10" by simp
    show ?thesis
      using False ih digitChar_facts [OF m]
      by (simp add: showNat.simps [of n] natOfDigits_snoc)
  qed
qed

lemma showNat_no_dot: "CHR ''.'' \<notin> set (showNat n)"
proof
  assume "CHR ''.'' \<in> set (showNat n)"
  moreover have "\<forall>c\<in>set (showNat n). isDigit c"
    using showNat_digits [of n] by (simp add: list_all_iff)
  ultimately have "isDigit CHR ''.''" by blast
  then show False by (simp add: isDigit_def)
qed

lemma takeWhile_showNat: "takeWhile (\<lambda>c. c \<noteq> CHR ''.'') (showNat n @ CHR ''.'' # ds) = showNat n"
  using showNat_no_dot [of n] by (simp add: takeWhile_append)

lemma dropWhile_showNat: "dropWhile (\<lambda>c. c \<noteq> CHR ''.'') (showNat n @ CHR ''.'' # ds) = CHR ''.'' # ds"
  using showNat_no_dot [of n] by (simp add: dropWhile_append)

lemma takeWhile_showNat_only: "takeWhile (\<lambda>c. c \<noteq> CHR ''.'') (showNat n) = showNat n"
  using showNat_no_dot [of n] by (auto simp: takeWhile_eq_all_conv)

lemma dropWhile_showNat_only: "dropWhile (\<lambda>c. c \<noteq> CHR ''.'') (showNat n) = []"
  using showNat_no_dot [of n] by auto

lemma hundredths_of_nat: "nat \<lfloor>(of_nat h / 100 :: rat) * 100\<rfloor> = h"
  by simp

lemma numberToString_cases:
  "numberToString (of_nat h / 100) =
     showNat (h div 100) @
     (if h mod 100 = 0 then []
      else if h mod 10 = 0 then [CHR ''.'', digitChar (h mod 100 div 10)]
      else [CHR ''.'', digitChar (h mod 100 div 10), digitChar (h mod 10)])"
  unfolding numberToString_def hundredths_of_nat Let_def by simp

lemma numberToString_decimal:
  "decimalValue (numberToString (of_nat h / 100)) = of_nat h / 100 \<and>
   list_all (\<lambda>c. isDigit c \<or> c = CHR ''.'') (numberToString (of_nat h / 100)) \<and>
   length (decimalFraction (numberToString (of_nat h / 100))) \<le> 2 \<and>
   (decimalFraction (numberToString (of_nat h / 100)) = [] \<or>
    last (decimalFraction (numberToString (of_nat h / 100))) \<noteq> CHR ''0'')"
proof -
  define a where "a = h div 100"
  define b where "b = h mod 100 div 10"
  define c where "c = h mod 10"
  have b10: "b < 10" and c10: "c < 10"
    by (simp_all add: b_def c_def)
  have mm: "h mod 100 mod 10 = h mod 10"
    by (simp add: mod_mod_cancel)
  have "h mod 100 = 10 * (h mod 100 div 10) + h mod 100 mod 10"
    by (simp only: mult_div_mod_eq)
  then have part: "h mod 100 = 10 * b + c"
    by (simp only: mm b_def c_def)
  have "h = 100 * (h div 100) + h mod 100"
    by (simp only: mult_div_mod_eq)
  then have h: "h = 100 * a + 10 * b + c"
    by (simp only: part a_def add.assoc)
  have hr: "(of_nat h :: rat) = 100 * of_nat a + 10 * of_nat b + of_nat c"
    by (subst h) simp
  have m100: "h mod 100 = 0 \<longleftrightarrow> b = 0 \<and> c = 0"
    by (simp add: part)
  have digits: "list_all (\<lambda>c. isDigit c \<or> c = CHR ''.'') (showNat a)"
    using showNat_digits [of a] by (simp add: list_all_iff)
  have val: "natOfDigits (showNat a) = a"
    using showNat_digits [of a] by simp
  have str: "numberToString (of_nat h / 100) =
     showNat a @
     (if b = 0 \<and> c = 0 then []
      else if c = 0 then [CHR ''.'', digitChar b]
      else [CHR ''.'', digitChar b, digitChar c])"
    by (simp add: numberToString_cases m100 a_def [symmetric] b_def [symmetric] c_def [symmetric])
  consider (whole) "b = 0" "c = 0" | (one) "b \<noteq> 0" "c = 0" | (two) "c \<noteq> 0"
    by blast
  then show ?thesis
  proof cases
    case whole
    then show ?thesis
      unfolding str
      using digits val
      by (simp add: hr decimalValue_def decimalFraction_def
            takeWhile_showNat_only dropWhile_showNat_only natOfDigits_def)
  next
    case one
    then show ?thesis
      unfolding str
      using digits val digitChar_facts [OF b10]
      by (simp add: hr decimalValue_def decimalFraction_def
            takeWhile_showNat dropWhile_showNat natOfDigits_def field_simps)
  next
    case two
    then show ?thesis
      unfolding str
      using digits val digitChar_facts [OF b10] digitChar_facts [OF c10]
      by (simp add: hr decimalValue_def decimalFraction_def
            takeWhile_showNat dropWhile_showNat natOfDigits_def field_simps)
  qed
qed

text \<open>
  Claim C9, as stated: the printed value is the scaled byte count rounded to two
  decimal places. It fails at 720636413518807 bytes, whose index is 4: the scaled
  value times 100 is just below 65541.5, the double product is exactly 65541.5, and
  \<open>formatBytes\<close> prints 655.42 TB where the value rounded to two decimals is 655.41.
\<close>

theorem formatBytes_two_decimals_counterexample:
  "unitIndex 720636413518807 = 4 \<and>
   formatBytes unitIndex 720636413518807 = ''655.42 TB'' \<and>
   numberToString (twoDecimals 720636413518807) @ '' '' @ sizes ! unitIndex 720636413518807 =
     ''655.41 TB'' \<and>
   formatBytes unitIndex 720636413518807 \<noteq>
     numberToString (twoDecimals 720636413518807) @ '' '' @ sizes ! unitIndex 720636413518807"
proof -
  have i: "unitIndex 720636413518807 = 4"
    by (simp add: unitIndex.simps)
  have a: "formatBytes unitIndex 720636413518807 = ''655.42 TB''"
    by (simp add: formatBytes_eval)
  have b: "numberToString (twoDecimals 720636413518807) @ '' '' @ sizes ! unitIndex 720636413518807 =
     ''655.41 TB''"
    by (simp add: formatBytes_eval)
  from i a b show ?thesis
    by simp
qed

text \<open>
  Claim C9, amended. \<open>formatBytes\<close> maps 0 to \<open>0 Bytes\<close>. For a byte count from 1
  on whose hundredfold is below \<open>2 ^ 53\<close>, where the platform computes the integer
  base-1024 logarithm \<open>i\<close> of the count as the index, the count is scaled by
  \<open>1024 ^ i\<close> to a value from 1 up to 1024, the value is rounded half up to two
  decimal places and printed in decimal notation (digits, at most two decimals, no
  trailing zero, denoting the rounded value), followed by the \<open>i\<close>-th of the units
  Bytes, KB, MB, GB, TB. In particular 1536 gives \<open>1.5 KB\<close>.
\<close>

theorem formatBytes_units:
  "formatBytes logFloor 0 = ''0 Bytes'' \<and>
   (logFloor 1536 = unitIndex 1536 \<longrightarrow> formatBytes logFloor 1536 = ''1.5 KB'') \<and>
   (0 < bytes \<longrightarrow> bytes * 100 < 2 ^ 53 \<longrightarrow> logFloor bytes = unitIndex bytes \<longrightarrow>
      unitIndex bytes < length sizes \<and>
      1024 ^ unitIndex bytes \<le> bytes \<and> bytes < 1024 * 1024 ^ unitIndex bytes \<and>
      formatBytes logFloor bytes =
        numberToString (twoDecimals bytes) @ '' '' @ sizes ! unitIndex bytes \<and>
      \<bar>twoDecimals bytes - of_nat bytes / 1024 ^ unitIndex bytes\<bar> \<le> 1 / 200 \<and>
      decimalValue (numberToString (twoDecimals bytes)) = twoDecimals bytes \<and>
      list_all (\<lambda>c. isDigit c \<or> c = CHR ''.'') (numberToString (twoDecimals bytes)) \<and>
      length (decimalFraction (numberToString (twoDecimals bytes))) \<le> 2 \<and>
      (decimalFraction (numberToString (twoDecimals bytes)) = [] \<or>
       last (decimalFraction (numberToString (twoDecimals bytes))) \<noteq> CHR ''0''))"
proof -
  have z: "formatBytes logFloor 0 = ''0 Bytes''"
    by (simp add: formatBytes_def)
  have e: "formatBytes logFloor 1536 = ''1.5 KB''" if "logFloor 1536 = unitIndex 1536"
  proof -
    have "logFloor 1536 = 1"
      using that by (simp add: unitIndex.simps)
    then show ?thesis
      by (simp add: formatBytes_eval)
  qed
  have g: "unitIndex bytes < length sizes \<and>
      1024 ^ unitIndex bytes \<le> bytes \<and> bytes < 1024 * 1024 ^ unitIndex bytes \<and>
      formatBytes logFloor bytes =
        numberToString (twoDecimals bytes) @ '' '' @ sizes ! unitIndex bytes \<and>
      \<bar>twoDecimals bytes - of_nat bytes / 1024 ^ unitIndex bytes\<bar> \<le> 1 / 200 \<and>
      decimalValue (numberToString (twoDecimals bytes)) = twoDecimals bytes \<and>
      list_all (\<lambda>c. isDigit c \<or> c = CHR ''.'') (numberToString (twoDecimals bytes)) \<and>
      length (decimalFraction (numberToString (twoDecimals bytes))) \<le> 2 \<and>
      (decimalFraction (numberToString (twoDecimals bytes)) = [] \<or>
       last (decimalFraction (numberToString (twoDecimals bytes))) \<noteq> CHR ''0'')"
    if pos: "0 < bytes" and small: "bytes * 100 < 2 ^ 53" and idx: "logFloor bytes = unitIndex bytes"
  proof -
    have "bytes < 1024 ^ 5"
      using small by simp
    then have i: "unitIndex bytes < length sizes"
      using unitIndex_less_5 [OF pos] by (simp add: sizes_def)
    have b: "1024 ^ unitIndex bytes \<le> bytes" "bytes < 1024 * 1024 ^ unitIndex bytes"
      using unitIndex_bounds [OF pos] by simp_all
    have f: "formatBytes logFloor bytes =
        numberToString (twoDecimals bytes) @ '' '' @ sizes ! unitIndex bytes"
      using pos i
      by (simp add: formatBytes_def Let_def idx scaledTimes100_exact [OF small] twoDecimals_def)
    have r: "\<bar>twoDecimals bytes - of_nat bytes / 1024 ^ unitIndex bytes\<bar> \<le> 1 / 200"
      using roundHalfUp_close [of "of_nat bytes / 1024 ^ unitIndex bytes * 100"]
      by (simp add: twoDecimals_def)
    have "0 \<le> roundHalfUp (of_nat bytes / 1024 ^ unitIndex bytes * 100)"
      by (simp add: roundHalfUp_def)
    then have "twoDecimals bytes =
        of_nat (nat (roundHalfUp (of_nat bytes / 1024 ^ unitIndex bytes * 100))) / 100"
      by (simp add: twoDecimals_def)
    then obtain h :: nat where h: "twoDecimals bytes = of_nat h / 100"
      by blast
    have d: "decimalValue (numberToString (twoDecimals bytes)) = twoDecimals bytes \<and>
      list_all (\<lambda>c. isDigit c \<or> c = CHR ''.'') (numberToString (twoDecimals bytes)) \<and>
      length (decimalFraction (numberToString (twoDecimals bytes))) \<le> 2 \<and>
      (decimalFraction (numberToString (twoDecimals bytes)) = [] \<or>
       last (decimalFraction (numberToString (twoDecimals bytes))) \<noteq> CHR ''0'')"
      unfolding h by (rule numberToString_decimal)
    from i b f r d show ?thesis
      by blast
  qed
  from z e g show ?thesis
    by blast
qed

theorem formatBytes_units_witness:
  "formatBytes unitIndex 1234567 = ''1.18 MB'' \<and>
   unitIndex 1234567 = 2 \<and> sizes ! 2 = ''MB'' \<and>
   twoDecimals 1234567 = 1.18 \<and>
   decimalValue ''1.18'' = 1.18 \<and>
   formatBytes unitIndex 1234567 =
     numberToString (twoDecimals 1234567) @ '' '' @ sizes ! unitIndex 1234567 \<and>
   decimalValue (numberToString (twoDecimals 1234567)) = twoDecimals 1234567 \<and>
   formatBytes unitIndex 1023 = ''1023 Bytes'' \<and>
   formatBytes unitIndex 4920000000 = ''4.58 GB'' \<and>
   formatBytes unitIndex 1099511627776 = ''1 TB''"
proof -
  have a: "formatBytes unitIndex 1234567 = ''1.18 MB''"
    by (simp add: formatBytes_eval)
  have b: "unitIndex 1234567 = 2"
    by (simp add: unitIndex.simps)
  have c: "sizes ! 2 = ''MB''"
    by (simp add: sizes_def)
  have t: "twoDecimals 1234567 = 1.18"
    by (simp add: formatBytes_eval)
  have v: "decimalValue ''1.18'' = 1.18"
    by (simp add: decimalValue_def natOfDigits_def)
  have m: "formatBytes unitIndex 1023 = ''1023 Bytes''"
      "formatBytes unitIndex 4920000000 = ''4.58 GB''"
      "formatBytes unitIndex 1099511627776 = ''1 TB''"
    by (simp_all add: formatBytes_eval)
  have p: "(0::nat) < 1234567" "(1234567::nat) * 100 < 2 ^ 53" "unitIndex 1234567 = unitIndex 1234567"
    by simp_all
  from formatBytes_units [of unitIndex 1234567] p
  have "formatBytes unitIndex 1234567 =
      numberToString (twoDecimals 1234567) @ '' '' @ sizes ! unitIndex 1234567 \<and>
    decimalValue (numberToString (twoDecimals 1234567)) = twoDecimals 1234567"
    by blast
  with a b c t v m show ?thesis
    by blast
qed

subsection \<open>Streaming parser\<close>

lemma splitLines_nonempty: "splitLines s \<noteq> []"
  by (induction s) (auto split: list.splits)

lemma splitLines_no_newline: "newline \<notin> set a \<Longrightarrow> splitLines (a @ b) = (a @ hd (splitLines b)) # tl (splitLines b)"
proof (induction a)
  case Nil
  then show ?case using splitLines_nonempty [of b] by simp
next
  case (Cons c a)
  then show ?case by (auto split: list.splits)
qed

lemma splitLines_line:
  assumes "newline \<notin> set l"
  shows "splitLines (l @ newline # rest) = l # splitLines rest"
  using splitLines_no_newline [OF assms, of "newline # rest"] by simp

lemma splitLines_single: "newline \<notin> set a \<Longrightarrow> splitLines a = [a]"
  using splitLines_no_newline [of a "[]"] by simp

lemma completeLines_line:
  assumes "newline \<notin> set l"
  shows "completeLines (l @ newline # rest) = l # completeLines rest"
  by (simp add: completeLines_def splitLines_line [OF assms] splitLines_nonempty)

lemma last_splitLines_line:
  assumes "newline \<notin> set l"
  shows "last (splitLines (l @ newline # rest)) = last (splitLines rest)"
  by (simp add: splitLines_line [OF assms] splitLines_nonempty)

lemma completeLines_append:
  "completeLines (a @ b) = completeLines a @ completeLines (last (splitLines a) @ b)"
proof (induction a rule: length_induct)
  case (1 a)
  show ?case
  proof (cases "newline \<in> set a")
    case False
    then show ?thesis
      by (simp add: completeLines_def splitLines_single)
  next
    case True
    then obtain l rest where a: "a = l @ newline # rest" and l: "newline \<notin> set l"
      by (meson split_list_first)
    have "length rest < length a"
      by (simp add: a)
    with 1 have ih: "completeLines (rest @ b) =
        completeLines rest @ completeLines (last (splitLines rest) @ b)"
      by blast
    have "completeLines (a @ b) = l # completeLines (rest @ b)"
      using completeLines_line [OF l, of "rest @ b"] by (simp add: a)
    then show ?thesis
      by (simp add: ih a completeLines_line [OF l] last_splitLines_line [OF l])
  qed
qed

lemma last_splitLines_no_newline: "newline \<notin> set (last (splitLines a))"
proof (induction a rule: length_induct)
  case (1 a)
  show ?case
  proof (cases "newline \<in> set a")
    case False
    then show ?thesis
      by (simp add: splitLines_single)
  next
    case True
    then obtain l rest where a: "a = l @ newline # rest" and l: "newline \<notin> set l"
      by (meson split_list_first)
    have "length rest < length a"
      by (simp add: a)
    with 1 have "newline \<notin> set (last (splitLines rest))"
      by blast
    then show ?thesis
      by (simp add: a last_splitLines_line [OF l])
  qed
qed

lemma processLines_append:
  "processLines parse (xs @ ys) =
     (case processLines parse xs of
        (events, returned) \<Rightarrow>
          if returned then (events, True)
          else (events @ fst (processLines parse ys), snd (processLines parse ys)))"
  by (induction xs) (auto split: prod.splits option.splits)

lemma readLoop_lines:
  "newline \<notin> set buffer \<Longrightarrow>
   readLoop parse reads buffer = fst (processLines parse (completeLines (buffer @ concat reads)))"
proof (induction reads arbitrary: buffer)
  case Nil
  then show ?case
    by (simp add: completeLines_def splitLines_single)
next
  case (Cons chunkText reads)
  have ih: "readLoop parse reads (last (splitLines (buffer @ chunkText))) =
      fst (processLines parse (completeLines (last (splitLines (buffer @ chunkText)) @ concat reads)))"
    by (rule Cons.IH) (rule last_splitLines_no_newline)
  have c: "completeLines (buffer @ concat (chunkText # reads)) =
      completeLines (buffer @ chunkText) @
      completeLines (last (splitLines (buffer @ chunkText)) @ concat reads)"
    using completeLines_append [of "buffer @ chunkText" "concat reads"] by simp
  show ?case
    unfolding c processLines_append
    by (simp add: Let_def ih completeLines_def split: prod.splits)
qed

text \<open>
  Claim C5. The events of the streaming parser are those of its complete lines, taken
  one by one, however the transport cuts the body into reads; a trailing partial line
  is kept and never parsed once the transport closes. A line that does not parse is
  logged and skipped and the lines after it are still processed; a chunk whose
  \<open>done\<close> flag is true is yielded and ends the stream, whatever follows; without
  such a chunk the stream ends with the reads. In particular a body of two
  newline-terminated lines, the first a chunk with \<open>done\<close> false and the second a
  chunk with \<open>done\<close> true, yields exactly the two normalised chunks, the second with
  the finish reason of \<open>done\<close>.
\<close>

theorem processStreamResponse_line_by_line:
  assumes "body response = Some reads"
  shows "processStreamResponse parse response =
           Inr (fst (processLines parse (completeLines (concat reads)))) \<and>
         processLines parse [] = ([], False) \<and>
         (trim line = [] \<longrightarrow> processLines parse (line # rest) = processLines parse rest) \<and>
         (trim line \<noteq> [] \<longrightarrow> parse line = None \<longrightarrow>
            processLines parse (line # rest) =
              (Warn line # fst (processLines parse rest), snd (processLines parse rest))) \<and>
         (trim line \<noteq> [] \<longrightarrow> parse line = Some chunk \<longrightarrow> \<not> replyDone chunk \<longrightarrow>
            processLines parse (line # rest) =
              (Yield (convertFromLocalFormat chunk) # fst (processLines parse rest),
               snd (processLines parse rest))) \<and>
         (trim line \<noteq> [] \<longrightarrow> parse line = Some chunk \<longrightarrow> replyDone chunk \<longrightarrow>
            processLines parse (line # rest) = ([Yield (convertFromLocalFormat chunk)], True)) \<and>
         (newline \<notin> set l1 \<longrightarrow> newline \<notin> set l2 \<longrightarrow> trim l1 \<noteq> [] \<longrightarrow> trim l2 \<noteq> [] \<longrightarrow>
          parse l1 = Some c1 \<longrightarrow> \<not> replyDone c1 \<longrightarrow> parse l2 = Some c2 \<longrightarrow> replyDone c2 \<longrightarrow>
          concat reads = l1 @ [newline] @ l2 @ [newline] \<longrightarrow>
            processStreamResponse parse response =
              Inr [Yield (convertFromLocalFormat c1), Yield (convertFromLocalFormat c2)] \<and>
            yielded [Yield (convertFromLocalFormat c1), Yield (convertFromLocalFormat c2)] =
              [convertFromLocalFormat c1, convertFromLocalFormat c2] \<and>
            map finishReason (candidates (convertFromLocalFormat c2)) = [Some STOP])"
proof -
  have 1: "processStreamResponse parse response =
           Inr (fst (processLines parse (completeLines (concat reads))))"
    using readLoop_lines [of "[]" parse reads] by (simp add: processStreamResponse_def assms)
  have 2: "processLines parse [] = ([], False)"
    by simp
  have 3: "processLines parse (line # rest) = processLines parse rest" if "trim line = []"
    using that by simp
  have 4: "processLines parse (line # rest) =
              (Warn line # fst (processLines parse rest), snd (processLines parse rest))"
    if "trim line \<noteq> []" "parse line = None"
    using that by (simp split: prod.splits)
  have 5: "processLines parse (line # rest) =
              (Yield (convertFromLocalFormat chunk) # fst (processLines parse rest),
               snd (processLines parse rest))"
    if "trim line \<noteq> []" "parse line = Some chunk" "\<not> replyDone chunk"
    using that by (simp split: prod.splits)
  have 6: "processLines parse (line # rest) = ([Yield (convertFromLocalFormat chunk)], True)"
    if "trim line \<noteq> []" "parse line = Some chunk" "replyDone chunk"
    using that by simp
  have 7: "processStreamResponse parse response =
              Inr [Yield (convertFromLocalFormat c1), Yield (convertFromLocalFormat c2)] \<and>
            yielded [Yield (convertFromLocalFormat c1), Yield (convertFromLocalFormat c2)] =
              [convertFromLocalFormat c1, convertFromLocalFormat c2] \<and>
            map finishReason (candidates (convertFromLocalFormat c2)) = [Some STOP]"
    if "newline \<notin> set l1" "newline \<notin> set l2" "trim l1 \<noteq> []" "trim l2 \<noteq> []"
       "parse l1 = Some c1" "\<not> replyDone c1" "parse l2 = Some c2" "replyDone c2"
       "concat reads = l1 @ [newline] @ l2 @ [newline]"
  proof -
    have "completeLines (concat reads) = [l1, l2]"
      using completeLines_line [OF that(1), of "l2 @ [newline]"]
        completeLines_line [OF that(2), of "[]"]
      by (simp add: that(9) completeLines_def)
    then show ?thesis
      using that by (simp add: 1 convertFromLocalFormat_def)
  qed
  from 1 2 3 4 5 6 7 show ?thesis
    by blast
qed

theorem processStreamResponse_line_by_line_witness:
  "processStreamResponse
     (\<lambda>l. if l = ''{\"done\":false}'' then
            Some \<lparr> replyMessage = None, replyContent = None, replyDone = False,
                   prompt_eval_count = None, eval_count = None \<rparr>
          else if l = ''{\"done\":true}'' then
            Some \<lparr> replyMessage = None, replyContent = None, replyDone = True,
                   prompt_eval_count = None, eval_count = None \<rparr>
          else None)
     \<lparr> ok = True, status = 200, statusText = ''OK'',
       body = Some [''{\"done\":fal'', ''se}'' @ [newline] @ ''{\"done\":true}'' @ [newline]] \<rparr> =
   Inr [Yield (convertFromLocalFormat
                 \<lparr> replyMessage = None, replyContent = None, replyDone = False,
                   prompt_eval_count = None, eval_count = None \<rparr>),
        Yield (convertFromLocalFormat
                 \<lparr> replyMessage = None, replyContent = None, replyDone = True,
                   prompt_eval_count = None, eval_count = None \<rparr>)]"
proof -
  let ?c1 = "\<lparr> replyMessage = None, replyContent = None, replyDone = False,
               prompt_eval_count = None, eval_count = None \<rparr>"
  let ?c2 = "\<lparr> replyMessage = None, replyContent = None, replyDone = True,
               prompt_eval_count = None, eval_count = None \<rparr>"
  let ?l1 = "''{\"done\":false}''"
  let ?l2 = "''{\"done\":true}''"
  let ?parse = "\<lambda>l. if l = ?l1 then Some ?c1 else if l = ?l2 then Some ?c2 else None"
  let ?reads = "[''{\"done\":fal'', ''se}'' @ [newline] @ ?l2 @ [newline]]"
  let ?response = "\<lparr> ok = True, status = 200, statusText = ''OK'', body = Some ?reads \<rparr>"
  have b: "body ?response = Some ?reads"
    by simp
  have two: "newline \<notin> set ?l1 \<longrightarrow> newline \<notin> set ?l2 \<longrightarrow> trim ?l1 \<noteq> [] \<longrightarrow> trim ?l2 \<noteq> [] \<longrightarrow>
      ?parse ?l1 = Some ?c1 \<longrightarrow> \<not> replyDone ?c1 \<longrightarrow> ?parse ?l2 = Some ?c2 \<longrightarrow> replyDone ?c2 \<longrightarrow>
      concat ?reads = ?l1 @ [newline] @ ?l2 @ [newline] \<longrightarrow>
        processStreamResponse ?parse ?response =
          Inr [Yield (convertFromLocalFormat ?c1), Yield (convertFromLocalFormat ?c2)] \<and>
        yielded [Yield (convertFromLocalFormat ?c1), Yield (convertFromLocalFormat ?c2)] =
          [convertFromLocalFormat ?c1, convertFromLocalFormat ?c2] \<and>
        map finishReason (candidates (convertFromLocalFormat ?c2)) = [Some STOP]"
    using processStreamResponse_line_by_line [OF b, of ?parse "[]" "[]" ?c1 ?l1 ?l2 ?c1 ?c2]
    by (elim conjE)
  have h: "newline \<notin> set ?l1" "newline \<notin> set ?l2" "trim ?l1 \<noteq> []" "trim ?l2 \<noteq> []"
      "?parse ?l1 = Some ?c1" "\<not> replyDone ?c1" "?parse ?l2 = Some ?c2" "replyDone ?c2"
      "concat ?reads = ?l1 @ [newline] @ ?l2 @ [newline]"
    by (simp_all add: newline_def trim_def isWhiteSpace_def)
  from two h show ?thesis
    by blast
qed

end
